theory Spec2Isabelle
  imports Main "HOL-Library.Word"
begin

unbundle bit_operations_syntax

section \<open>Strings\<close>

text \<open>
  A JavaScript string is a sequence of UTF-16 code units. The development represents it
  as a \<^typ>\<open>string\<close>, one \<^typ>\<open>char\<close> per code unit, which covers the code units
  0 to 255 (ASCII and Latin-1). \<open>length\<close> is the source's \<open>.length\<close>,
  \<open>take\<close> and \<open>drop\<close> are \<open>slice\<close>.
\<close>

definition charCode :: "char \<Rightarrow> nat" where
  "charCode c = of_char c"

text \<open>White space as \<open>String.prototype.trim\<close> and the regular expression class
  \<open>\s\<close> see it: tab, line feed, vertical tab, form feed, carriage return, space and
  the no-break space.\<close>

definition isWhiteSpace :: "char \<Rightarrow> bool" where
  "isWhiteSpace c = (charCode c \<in> {9, 10, 11, 12, 13, 32, 160})"

definition trim :: "string \<Rightarrow> string" where
  "trim s = rev (dropWhile isWhiteSpace (rev (dropWhile isWhiteSpace s)))"

text \<open>\<open>toLowerCase\<close> on the code units 0 to 255: the ASCII capitals and the Latin-1
  capitals (all of 192 to 222 but the multiplication sign 215) move up by 32.\<close>

definition toLowerChar :: "char \<Rightarrow> char" where
  "toLowerChar c =
     (let n = charCode c
      in if (65 \<le> n \<and> n \<le> 90) \<or> (192 \<le> n \<and> n \<le> 222 \<and> n \<noteq> 215)
         then char_of (n + 32) else c)"

definition toLowerCase :: "string \<Rightarrow> string" where
  "toLowerCase s = map toLowerChar s"

text \<open>The ASCII letters and digits.\<close>

definition isAlpha :: "char \<Rightarrow> bool" where
  "isAlpha c = (let n = charCode c in (65 \<le> n \<and> n \<le> 90) \<or> (97 \<le> n \<and> n \<le> 122))"

definition isDigit :: "char \<Rightarrow> bool" where
  "isDigit c = (48 \<le> charCode c \<and> charCode c \<le> 57)"

definition isAlnum :: "char \<Rightarrow> bool" where
  "isAlnum c = (isAlpha c \<or> isDigit c)"

section \<open>Binary64 numbers\<close>

text \<open>
  Two computations of the source multiply an integer by a decimal literal (\<open>0.2\<close>,
  \<open>0.7\<close>) in binary64 arithmetic. A non-negative binary64 value is written here as
  a natural number of units \<open>1 / 2 ^ k\<close>, for a \<open>k\<close> fixed where it is used.
\<close>

function bitLength :: "nat \<Rightarrow> nat" where
  "bitLength n = (if n = 0 then 0 else Suc (bitLength (n div 2)))"
  by pat_completeness auto
termination
  by (relation "measure id") auto

declare bitLength.simps [simp del]

text \<open>
  Rounding to binary64: the nearest number with at most 53 significant binary digits,
  a tie going to the even significand. (The numbers at hand are far from the ends of
  the exponent range.)
\<close>

definition roundToDouble :: "nat \<Rightarrow> nat" where
  "roundToDouble p =
     (let bits = bitLength p
      in if bits \<le> 53 then p
         else
           let ulp = 2 ^ (bits - 53);
               q = p div ulp;
               r = p mod ulp
           in if 2 * r > ulp \<or> (2 * r = ulp \<and> odd q) then (q + 1) * ulp else q * ulp)"

section \<open>Cache keys\<close>

subsection \<open>hashString\<close>

text \<open>
  The loop body is \<open>hash = (hash << 5) - hash + char; hash = hash & hash\<close>. Both
  bitwise operators convert to a 32-bit integer, so the accumulator is a
  \<^typ>\<open>32 word\<close> whose signed reading is the source's number.
\<close>

definition hashStep :: "32 word \<Rightarrow> char \<Rightarrow> 32 word" where
  "hashStep hash c =
     (let hash1 = push_bit 5 hash - hash + of_nat (charCode c)
      in hash1 AND hash1)"

definition hashLoop :: "string \<Rightarrow> 32 word" where
  "hashLoop str = foldl hashStep 0 str"

definition digit36 :: "nat \<Rightarrow> char" where
  "digit36 d = ''0123456789abcdefghijklmnopqrstuvwxyz'' ! d"

text \<open>\<open>Number.prototype.toString(36)\<close> on an integer: the digits of the absolute
  value, after a minus sign for a negative number.\<close>

function toString36 :: "int \<Rightarrow> string" where
  "toString36 n =
     (if n < 0 then ''-'' @ toString36 (- n)
      else if n < 36 then [digit36 (nat n)]
      else toString36 (n div 36) @ [digit36 (nat (n mod 36))])"
  by pat_completeness auto
termination
  by (relation "measure (\<lambda>n. if n < 0 then nat (1 - n) else nat n)") auto

declare toString36.simps [simp del]

definition hashString :: "string \<Rightarrow> string" where
  "hashString str = toString36 \<bar>sint (hashLoop str)\<bar>"

subsection \<open>The platform's URL class\<close>

text \<open>
  \<open>normalizeUrl\<close> goes through the platform's \<open>URL\<close> class, which is not code of
  the repository but an implementation of the URL Standard. This development follows
  the standard on two kinds of input, taken after the standard has stripped leading and
  trailing control characters and spaces and removed every tab and newline:

    \<^item> an input that does not start with a scheme and a colon, for which the
      constructor throws a \<open>TypeError\<close>, since there is no base URL;

    \<^item> an \<open>http\<close> or \<open>https\<close> URL \<open>scheme://host/path?query#fragment\<close> (path,
      query and fragment optional) whose host is a plain domain name, labels of ASCII
      letters, digits and hyphens separated by dots; with no circumflex accent in the
      path (versions of the standard differ on it), and with a query whose names and
      values are ASCII once they are decoded.

  On the second kind the parser lower-cases scheme and host, turns a backslash of the
  path into a slash, resolves the dot segments, percent-encodes the UTF-8 bytes of the
  characters of path, query and fragment that are in the percent-encode set of the
  component, and reads the query as a list of names and values in the
  \<open>application/x-www-form-urlencoded\<close> format.

  Every other input (another scheme, credentials, a port, an IP address, an
  internationalised or percent-encoded host, missing slashes) is outside of this
  model: the parser answers \<open>Unmodelled\<close>, and \<open>normalizeUrl\<close> takes its result for
  such a URL from a parameter, about which nothing is assumed.
\<close>

record URL =
  scheme :: string
  host :: string
  pathname :: string
  query :: "string option"
  fragment :: "string option"
  searchParams :: "(string \<times> string) list"

datatype parse_result = Parsed URL | TypeError | Unmodelled

fun splitOn :: "char \<Rightarrow> string \<Rightarrow> string list" where
  "splitOn c [] = [[]]"
| "splitOn c (x # xs) =
     (if x = c then [] # splitOn c xs
      else (case splitOn c xs of [] \<Rightarrow> [[x]] | w # ws \<Rightarrow> (x # w) # ws))"

definition isSchemeChar :: "char \<Rightarrow> bool" where
  "isSchemeChar c = (isAlnum c \<or> c = CHR ''+'' \<or> c = CHR ''-'' \<or> c = CHR ''.'')"

text \<open>Leading and trailing C0 control characters and spaces are stripped, then tabs and
  newlines are removed.\<close>

definition isC0ControlOrSpace :: "char \<Rightarrow> bool" where
  "isC0ControlOrSpace c = (charCode c \<le> 32)"

definition isTabOrNewline :: "char \<Rightarrow> bool" where
  "isTabOrNewline c = (charCode c \<in> {9, 10, 13})"

definition stripInput :: "string \<Rightarrow> string" where
  "stripInput input =
     filter (\<lambda>c. \<not> isTabOrNewline c)
       (rev (dropWhile isC0ControlOrSpace (rev (dropWhile isC0ControlOrSpace input))))"

text \<open>The scheme: an ASCII letter, then letters, digits, \<open>+\<close>, \<open>-\<close> and \<open>.\<close> up to
  a colon.\<close>

definition hasScheme :: "string \<Rightarrow> bool" where
  "hasScheme s =
     (let sch = takeWhile (\<lambda>c. c \<noteq> CHR '':'') s
      in (case sch of [] \<Rightarrow> False | c # cs \<Rightarrow> isAlpha c) \<and> list_all isSchemeChar sch
         \<and> dropWhile (\<lambda>c. c \<noteq> CHR '':'') s \<noteq> [])"

subsubsection \<open>Percent-encoding\<close>

text \<open>The percent-encode sets of the standard, as sets of code units: the C0 control
  set (controls, and everything above the tilde), and what fragment, query and path add
  to it: space, double quote, \<open><\<close>, \<open>>\<close> and the backtick for a fragment; space,
  double quote, \<open>#\<close>, \<open><\<close> and \<open>>\<close> for a query, with the single quote for the
  query of an http URL; and \<open>?\<close>, the backtick and the braces for a path.\<close>

definition c0ControlSet :: "nat \<Rightarrow> bool" where
  "c0ControlSet n = (n < 32 \<or> n > 126)"

definition fragmentSet :: "nat \<Rightarrow> bool" where
  "fragmentSet n = (c0ControlSet n \<or> n \<in> {32, 34, 60, 62, 96})"

definition querySet :: "nat \<Rightarrow> bool" where
  "querySet n = (c0ControlSet n \<or> n \<in> {32, 34, 35, 60, 62})"

definition specialQuerySet :: "nat \<Rightarrow> bool" where
  "specialQuerySet n = (querySet n \<or> n = 39)"

definition pathSet :: "nat \<Rightarrow> bool" where
  "pathSet n = (querySet n \<or> n \<in> {63, 96, 123, 125})"

definition percentEncodeByte :: "nat \<Rightarrow> string" where
  "percentEncodeByte b =
     [CHR ''%'', ''0123456789ABCDEF'' ! (b div 16), ''0123456789ABCDEF'' ! (b mod 16)]"

text \<open>The UTF-8 bytes of a code unit below 256: itself below 128, two bytes from 128
  on.\<close>

definition utf8Bytes :: "char \<Rightarrow> nat list" where
  "utf8Bytes c =
     (let n = charCode c in if n < 128 then [n] else [192 + n div 64, 128 + n mod 64])"

definition utf8PercentEncode :: "(nat \<Rightarrow> bool) \<Rightarrow> string \<Rightarrow> string" where
  "utf8PercentEncode encodeSet s =
     concat (map (\<lambda>c. if encodeSet (charCode c)
                       then concat (map percentEncodeByte (utf8Bytes c))
                       else [c]) s)"

definition isHexDigit :: "char \<Rightarrow> bool" where
  "isHexDigit c =
     (let n = charCode c
      in (48 \<le> n \<and> n \<le> 57) \<or> (65 \<le> n \<and> n \<le> 70) \<or> (97 \<le> n \<and> n \<le> 102))"

definition hexValue :: "char \<Rightarrow> nat" where
  "hexValue c =
     (let n = charCode c in if n \<le> 57 then n - 48 else if n \<le> 70 then n - 55 else n - 87)"

text \<open>Percent-decoding gives bytes, one \<^typ>\<open>char\<close> per byte: a percent sign with two
  hexadecimal digits after it becomes the byte they write, everything else stays.\<close>

fun percentDecode :: "string \<Rightarrow> string" where
  "percentDecode (c # a # b # rest) =
     (if c = CHR ''%'' \<and> isHexDigit a \<and> isHexDigit b
      then char_of (16 * hexValue a + hexValue b) # percentDecode rest
      else c # percentDecode (a # b # rest))"
| "percentDecode cs = cs"

subsubsection \<open>The query as a list of names and values\<close>

text \<open>The \<open>application/x-www-form-urlencoded\<close> parser: split at \<open>&\<close>, empty pieces
  dropped, each piece split at its first \<open>=\<close>, every \<open>+\<close> a space, then
  percent-decoded. The serializer writes a space as \<open>+\<close>, keeps letters, digits,
  \<open>*\<close>, \<open>-\<close>, \<open>.\<close> and \<open>_\<close>, and percent-encodes every other byte.\<close>

definition urlencodedDecode :: "string \<Rightarrow> string" where
  "urlencodedDecode s = percentDecode (map (\<lambda>c. if c = CHR ''+'' then CHR '' '' else c) s)"

definition urlencodedParse :: "string \<Rightarrow> (string \<times> string) list" where
  "urlencodedParse q =
     map (\<lambda>piece. (urlencodedDecode (takeWhile (\<lambda>c. c \<noteq> CHR ''='') piece),
                   urlencodedDecode (drop 1 (dropWhile (\<lambda>c. c \<noteq> CHR ''='') piece))))
       (filter (\<lambda>piece. piece \<noteq> []) (splitOn CHR ''&'' q))"

definition urlencodedEncode :: "string \<Rightarrow> string" where
  "urlencodedEncode s =
     concat (map (\<lambda>c. if c = CHR '' '' then ''+''
                       else if isAlnum c \<or> c = CHR ''*'' \<or> c = CHR ''-'' \<or> c = CHR ''.''
                               \<or> c = CHR ''_''
                       then [c]
                       else percentEncodeByte (charCode c)) s)"

fun urlencodedSerialize :: "(string \<times> string) list \<Rightarrow> string" where
  "urlencodedSerialize [] = []"
| "urlencodedSerialize [(n, v)] = urlencodedEncode n @ ''='' @ urlencodedEncode v"
| "urlencodedSerialize ((n, v) # rest) =
     urlencodedEncode n @ ''='' @ urlencodedEncode v @ ''&'' @ urlencodedSerialize rest"

subsubsection \<open>The path\<close>

text \<open>A segment that is one dot or two, a dot also written \<open>%2e\<close> in either case.\<close>

definition isSingleDot :: "string \<Rightarrow> bool" where
  "isSingleDot buffer = (toLowerCase buffer = ''.'' \<or> toLowerCase buffer = ''%2e'')"

definition isDoubleDot :: "string \<Rightarrow> bool" where
  "isDoubleDot buffer =
     (toLowerCase buffer = ''..'' \<or> toLowerCase buffer = ''.%2e''
      \<or> toLowerCase buffer = ''%2e.'' \<or> toLowerCase buffer = ''%2e%2e'')"

text \<open>
  The path state of the parser, segment by segment: a segment of two dots removes the
  last segment of the path so far, a segment of one dot is dropped, any other segment
  is appended, percent-encoded; after a dot segment that ends the path an empty segment
  is appended.
\<close>

fun pathSegments :: "string list \<Rightarrow> string list \<Rightarrow> string list" where
  "pathSegments path [] = path"
| "pathSegments path [segment] =
     (let buffer = utf8PercentEncode pathSet segment
      in if isDoubleDot buffer then butlast path @ [[]]
         else if isSingleDot buffer then path @ [[]]
         else path @ [buffer])"
| "pathSegments path (segment # rest) =
     (let buffer = utf8PercentEncode pathSet segment
      in pathSegments
           (if isDoubleDot buffer then butlast path
            else if isSingleDot buffer then path
            else path @ [buffer])
           rest)"

text \<open>The path of a URL from the piece of the input between host and query: empty, or
  starting with a slash or a backslash.\<close>

definition isSlash :: "char \<Rightarrow> bool" where
  "isSlash c = (c = CHR ''/'' \<or> charCode c = 92)"

definition parsePath :: "string \<Rightarrow> string" where
  "parsePath piece =
     concat (map (\<lambda>segment. CHR ''/'' # segment)
               (pathSegments []
                  (splitOn CHR ''/'' (map (\<lambda>c. if isSlash c then CHR ''/'' else c) (drop 1 piece)))))"

subsubsection \<open>The parser\<close>

text \<open>A label of a plain domain name: letters, digits and hyphens, with no hyphen at
  its start or end and not two hyphens in its third and fourth place (as the labels
  of internationalised names have, which start with \<open>xn--\<close>). The last label of a
  plain host starts with a letter, so that the host does not end in a number (such a
  host is read as an IPv4 address).\<close>

definition plainLabel :: "string \<Rightarrow> bool" where
  "plainLabel label =
     (label \<noteq> [] \<and> list_all (\<lambda>c. isAlnum c \<or> c = CHR ''-'') label
      \<and> take 1 label \<noteq> ''-'' \<and> take 1 (rev label) \<noteq> ''-''
      \<and> take 2 (drop 2 label) \<noteq> ''--'')"

definition plainHost :: "string \<Rightarrow> bool" where
  "plainHost h =
     (let labels = splitOn CHR ''.'' h
      in list_all plainLabel labels
         \<and> (case last labels of [] \<Rightarrow> False | c # cs \<Rightarrow> isAlpha c))"

definition isAsciiString :: "string \<Rightarrow> bool" where
  "isAsciiString s = list_all (\<lambda>c. charCode c < 128) s"

definition parseURL :: "string \<Rightarrow> parse_result" where
  "parseURL input =
     (let s = stripInput input;
          sch = takeWhile (\<lambda>c. c \<noteq> CHR '':'') s;
          rest = dropWhile (\<lambda>c. c \<noteq> CHR '':'') s
      in if \<not> hasScheme s then TypeError
         else
           let afterSlashes = drop 3 rest;
               beforeFragment = takeWhile (\<lambda>c. c \<noteq> CHR ''#'') afterSlashes;
               frag = dropWhile (\<lambda>c. c \<noteq> CHR ''#'') afterSlashes;
               beforeQuery = takeWhile (\<lambda>c. c \<noteq> CHR ''?'') beforeFragment;
               q = dropWhile (\<lambda>c. c \<noteq> CHR ''?'') beforeFragment;
               h = takeWhile (\<lambda>c. \<not> isSlash c) beforeQuery;
               path = dropWhile (\<lambda>c. \<not> isSlash c) beforeQuery;
               encodedQuery = utf8PercentEncode specialQuerySet (drop 1 q);
               params = urlencodedParse encodedQuery
           in if (toLowerCase sch \<noteq> ''http'' \<and> toLowerCase sch \<noteq> ''https'')
                 \<or> take 3 rest \<noteq> ''://'' \<or> \<not> plainHost h \<or> CHR ''^'' \<in> set path
                 \<or> \<not> list_all (\<lambda>(n, v). isAsciiString n \<and> isAsciiString v) params
              then Unmodelled
              else Parsed \<lparr>scheme = toLowerCase sch,
                           host = toLowerCase h,
                           pathname = parsePath path,
                           query = (if q = [] then None else Some encodedQuery),
                           fragment = (if frag = [] then None
                                       else Some (utf8PercentEncode fragmentSet (drop 1 frag))),
                           searchParams = params\<rparr>)"

text \<open>\<open>searchParams.delete(name)\<close> removes every pair of that name and then
  updates the URL's query from the list, whether or not it removed one: the query
  becomes the serialized list, and an empty list leaves the URL with no query.\<close>

definition searchParams_delete :: "string \<Rightarrow> URL \<Rightarrow> URL" where
  "searchParams_delete name u =
     (let l = filter (\<lambda>(n, v). n \<noteq> name) (searchParams u)
      in u\<lparr>searchParams := l,
            query := (if l = [] then None else Some (urlencodedSerialize l))\<rparr>)"

text \<open>The setter \<open>hash = ''\<close> removes the fragment.\<close>

definition clearHash :: "URL \<Rightarrow> URL" where
  "clearHash u = u\<lparr>fragment := None\<rparr>"

definition URL_toString :: "URL \<Rightarrow> string" where
  "URL_toString u =
     scheme u @ ''://'' @ host u @ pathname u
     @ (case query u of None \<Rightarrow> [] | Some q \<Rightarrow> ''?'' @ q)
     @ (case fragment u of None \<Rightarrow> [] | Some f \<Rightarrow> ''#'' @ f)"

subsection \<open>normalizeUrl and generateCacheKey\<close>

text \<open>
  \<open>elsewhere url\<close> is what the body of \<open>normalizeUrl\<close> returns for a URL outside
  of the model of the \<open>URL\<close> class.
\<close>

definition normalizeUrl :: "(string \<Rightarrow> string) \<Rightarrow> string \<Rightarrow> string" where
  "normalizeUrl elsewhere url =
     (case parseURL url of
        Parsed parsed \<Rightarrow>
          let p1 = searchParams_delete ''utm_source'' parsed;
              p2 = searchParams_delete ''utm_medium'' p1;
              p3 = searchParams_delete ''utm_campaign'' p2;
              p4 = searchParams_delete ''ref'' p3;
              p5 = searchParams_delete ''context'' p4;
              p6 = clearHash p5
          in toLowerCase (URL_toString p6)
      | TypeError \<Rightarrow> toLowerCase url
      | Unmodelled \<Rightarrow> elsewhere url)"

definition generateCacheKey :: "(string \<Rightarrow> string) \<Rightarrow> string \<Rightarrow> string \<Rightarrow> string" where
  "generateCacheKey elsewhere url tone = hashString (normalizeUrl elsewhere url @ '':'' @ tone)"

definition TONE_PRESETS :: "string list" where
  "TONE_PRESETS = [''friendly'', ''professional'', ''humorous'', ''concise'']"

section \<open>Adapter URL patterns\<close>

text \<open>
  The regular expressions of the three adapters use literals, an optional group
  \<open>(...)?\<close>, an alternative \<open>(a|b)\<close> and the class repetition \<open>[^/]+\<close>.
  Every pattern starts with \<open>^\<close> and has no \<open>$\<close>: it matches a prefix of
  the URL. \<open>rmatch r s\<close> lists what is left of \<open>s\<close> after each way of matching
  \<open>r\<close> at its start, so \<open>RegExp_test\<close> holds exactly when some way exists.
\<close>

datatype regexp =
    Lit string
  | Opt regexp
  | Alt regexp regexp
  | PlusNot char
  | Seq regexp regexp

fun rmatch :: "regexp \<Rightarrow> string \<Rightarrow> string list" where
  "rmatch (Lit l) s = (if take (length l) s = l then [drop (length l) s] else [])"
| "rmatch (Opt r) s = rmatch r s @ [s]"
| "rmatch (Alt r1 r2) s = rmatch r1 s @ rmatch r2 s"
| "rmatch (PlusNot c) s =
     map (\<lambda>k. drop k s) (rev [1 ..< Suc (length (takeWhile (\<lambda>x. x \<noteq> c) s))])"
| "rmatch (Seq r1 r2) s = concat (map (rmatch r2) (rmatch r1 s))"

definition RegExp_test :: "regexp \<Rightarrow> string \<Rightarrow> bool" where
  "RegExp_test r s = (rmatch r s \<noteq> [])"

definition seqs :: "regexp list \<Rightarrow> regexp" where
  "seqs rs = foldr Seq rs (Lit [])"

definition http_www :: "regexp list" where
  "http_www = [Lit ''http'', Opt (Lit ''s''), Lit ''://'', Opt (Lit ''www.'')]"

definition REDDIT_URL_PATTERNS :: "regexp list" where
  "REDDIT_URL_PATTERNS =
     [seqs (http_www @ [Lit ''reddit.com/r/'', PlusNot CHR ''/'', Lit ''/comments/'']),
      seqs [Lit ''http'', Opt (Lit ''s''), Lit ''://old.reddit.com/r/'', PlusNot CHR ''/'',
            Lit ''/comments/''],
      seqs (http_www @ [Lit ''reddit.com/user/'', PlusNot CHR ''/'', Lit ''/comments/''])]"

definition TWITTER_URL_PATTERNS :: "regexp list" where
  "TWITTER_URL_PATTERNS =
     [seqs (http_www @ [Alt (Lit ''twitter'') (Lit ''x''), Lit ''.com/'', PlusNot CHR ''/'',
                        Lit ''/status/''])]"

definition FACEBOOK_URL_PATTERNS :: "regexp list" where
  "FACEBOOK_URL_PATTERNS =
     [seqs (http_www @ [Lit ''facebook.com/'', PlusNot CHR ''/'', Lit ''/posts/'']),
      seqs (http_www @ [Lit ''facebook.com/groups/'', PlusNot CHR ''/'', Lit ''/posts/'']),
      seqs (http_www @ [Lit ''facebook.com/permalink.php'']),
      seqs (http_www @ [Lit ''facebook.com/'', PlusNot CHR ''/'', Lit ''/photos/'']),
      seqs (http_www @ [Lit ''facebook.com/photo''])]"

text \<open>\<open>BasePlatformAdapter.canHandle\<close>: some pattern of the adapter matches.\<close>

definition canHandle :: "regexp list \<Rightarrow> string \<Rightarrow> bool" where
  "canHandle urlPatterns url = list_ex (\<lambda>pattern. RegExp_test pattern url) urlPatterns"

definition RedditAdapter_canHandle :: "string \<Rightarrow> bool" where
  "RedditAdapter_canHandle = canHandle REDDIT_URL_PATTERNS"

definition TwitterAdapter_canHandle :: "string \<Rightarrow> bool" where
  "TwitterAdapter_canHandle = canHandle TWITTER_URL_PATTERNS"

definition FacebookAdapter_canHandle :: "string \<Rightarrow> bool" where
  "FacebookAdapter_canHandle = canHandle FACEBOOK_URL_PATTERNS"

section \<open>Thread context\<close>

text \<open>A JavaScript number that holds an integer or \<open>NaN\<close> (what \<open>parseInt\<close>
  returns).\<close>

datatype jsnum = Num int | NaN

record Comment =
  comment_id :: string
  author :: string
  comment_text :: string
  parentId :: "string option"
  depth :: jsnum

text \<open>The type of \<open>platform\<close> is a closed union in the source, but the validation
  gate checks it at run time, so the field is a string here.\<close>

record ThreadContext =
  platform :: string
  url :: string
  postTitle :: string
  postBody :: string
  postAuthor :: "string option"
  comments :: "Comment list"
  extractedAt :: nat

section \<open>Thread extractor: the validation gate\<close>

definition validPlatforms :: "string list" where
  "validPlatforms = [''reddit'', ''twitter'', ''facebook'']"

definition isValidContext :: "ThreadContext \<Rightarrow> bool" where
  "isValidContext ctx =
     (if url ctx = [] then False
      else
        let hasContent =
              (length (trim (postTitle ctx)) > 0
               \<or> length (trim (postBody ctx)) > 0
               \<or> length (comments ctx) > 0)
        in if \<not> hasContent then False
           else if platform ctx \<notin> set validPlatforms then False
           else True)"

text \<open>
  An adapter reads and writes the page. The page is a state of type \<open>'dom\<close>, an
  element handle has type \<open>'el\<close> and a thrown exception is a value of type
  \<open>'e\<close>. A call that can throw returns \<open>Inl\<close> of the exception, or, when it
  also changes the page, the exception (if any) together with the page it leaves.
\<close>

record ('dom, 'el, 'e) PlatformAdapter =
  extractThreadContext :: "'dom \<Rightarrow> 'e + ThreadContext option"
  getInputText :: "'el \<Rightarrow> 'dom \<Rightarrow> 'e + string"
  setInputText :: "'el \<Rightarrow> string \<Rightarrow> bool \<Rightarrow> 'dom \<Rightarrow> 'e option \<times> 'dom"

definition extractWithAdapter ::
  "('dom, 'el, 'e) PlatformAdapter \<Rightarrow> 'dom \<Rightarrow> ThreadContext option" where
  "extractWithAdapter adapter page =
     (case extractThreadContext adapter page of
        Inl error \<Rightarrow> None
      | Inr None \<Rightarrow> None
      | Inr (Some ctx) \<Rightarrow> if \<not> isValidContext ctx then None else Some ctx)"

section \<open>Text inserter\<close>

text \<open>\<open>s.replace(/\s+/g, ' ')\<close>: every maximal run of white space becomes one
  space.\<close>

function collapseSpaces :: "string \<Rightarrow> string" where
  "collapseSpaces [] = []"
| "collapseSpaces (c # cs) =
     (if isWhiteSpace c then CHR '' '' # collapseSpaces (dropWhile isWhiteSpace cs)
      else c # collapseSpaces cs)"
  by pat_completeness auto
termination
  by (relation "measure length") (auto simp: le_imp_less_Suc length_dropWhile_le)

text \<open>\<open>s.includes(t)\<close>: \<open>t\<close> occurs in \<open>s\<close> at some position.\<close>

definition includes_str :: "string \<Rightarrow> string \<Rightarrow> bool" where
  "includes_str s t = list_ex (\<lambda>i. take (length t) (drop i s) = t) [0 ..< Suc (length s)]"

text \<open>
  \<open>insertText\<close>. The read of the original text stands before the \<open>try\<close>, so
  an exception of that read leaves the function at once. \<open>fallbackInsert\<close> only
  calls the page (focus, \<open>execCommand\<close>, value assignment, event dispatch); its
  effect is a parameter.
\<close>

definition insertText_try ::
  "('dom, 'el, 'e) PlatformAdapter \<Rightarrow> ('el \<Rightarrow> string \<Rightarrow> 'dom \<Rightarrow> 'e option \<times> 'dom)
     \<Rightarrow> 'el \<Rightarrow> string \<Rightarrow> 'dom \<Rightarrow> 'e option \<times> 'dom" where
  "insertText_try adapter fallbackInsert input text page =
     (case setInputText adapter input text False page of
        (Some error, page1) \<Rightarrow> (Some error, page1)
      | (None, page1) \<Rightarrow>
          (case getInputText adapter input page1 of
             Inl error \<Rightarrow> (Some error, page1)
           | Inr newText \<Rightarrow>
               let normalizedNew = collapseSpaces (trim newText);
                   normalizedExpected = collapseSpaces (trim text)
               in if \<not> includes_str normalizedNew normalizedExpected
                     \<and> length normalizedNew = 0
                  then fallbackInsert input text page1
                  else (None, page1)))"

definition insertText ::
  "('dom, 'el, 'e) PlatformAdapter \<Rightarrow> ('el \<Rightarrow> string \<Rightarrow> 'dom \<Rightarrow> 'e option \<times> 'dom)
     \<Rightarrow> 'el \<Rightarrow> string \<Rightarrow> 'dom \<Rightarrow> 'e option \<times> 'dom" where
  "insertText adapter fallbackInsert input text page =
     (case getInputText adapter input page of
        Inl error \<Rightarrow> (Some error, page)
      | Inr originalText \<Rightarrow>
          (case insertText_try adapter fallbackInsert input text page of
             (None, page1) \<Rightarrow> (None, page1)
           | (Some error, page1) \<Rightarrow>
               (case setInputText adapter input originalText False page1 of
                  (restoreError, page2) \<Rightarrow> (Some error, page2))))"

section \<open>Platform adapters: what is stored in a thread context\<close>

subsection \<open>The page\<close>

text \<open>
  An element of the page answers three questions of the adapters: the value of an
  attribute, the text nodes below it in document order (their concatenation is
  \<open>textContent\<close>), and the elements below it that a selector matches, in document
  order. The document is the root element. Selectors are the source's strings.
\<close>

datatype Element =
  Element (getAttribute: "string \<Rightarrow> string option")
          (textNodes: "string list")
          (querySelectorAll: "string \<Rightarrow> Element list")

record Page =
  document :: Element
  location_href :: string
  location_pathname :: string
  date_now :: nat

definition textContent :: "Element \<Rightarrow> string" where
  "textContent el = concat (textNodes el)"

definition querySelector :: "Element \<Rightarrow> string \<Rightarrow> Element option" where
  "querySelector el selector =
     (case querySelectorAll el selector of [] \<Rightarrow> None | e # rest \<Rightarrow> Some e)"

text \<open>A double quote inside a selector.\<close>

definition quoted :: "string \<Rightarrow> string" where
  "quoted s = [char_of (34 :: nat)] @ s @ [char_of (34 :: nat)]"

text \<open>\<open>a || b\<close> on strings that may be null: \<open>a\<close> unless it is null or empty.\<close>

definition js_or :: "string option \<Rightarrow> string option \<Rightarrow> string option" where
  "js_or a b = (case a of Some (c # cs) \<Rightarrow> a | _ \<Rightarrow> b)"

definition or_default :: "string option \<Rightarrow> string \<Rightarrow> string" where
  "or_default a d = (case a of Some (c # cs) \<Rightarrow> c # cs | _ \<Rightarrow> d)"

subsection \<open>Helpers of the base adapter\<close>

fun queryFirstWithin :: "Element \<Rightarrow> string list \<Rightarrow> Element option" where
  "queryFirstWithin container [] = None"
| "queryFirstWithin container (selector # selectors) =
     (case querySelector container selector of
        Some element \<Rightarrow> Some element
      | None \<Rightarrow> queryFirstWithin container selectors)"

fun queryAll :: "Element \<Rightarrow> string list \<Rightarrow> Element list" where
  "queryAll doc [] = []"
| "queryAll doc (selector # selectors) =
     (let elements = querySelectorAll doc selector
      in if length elements > 0 then elements else queryAll doc selectors)"

definition getTextContent :: "Element option \<Rightarrow> string" where
  "getTextContent element =
     (case element of None \<Rightarrow> [] | Some el \<Rightarrow> trim (textContent el))"

text \<open>\<open>text.slice(0, end)\<close>: a negative \<open>end\<close> counts from the end of the string.\<close>

definition slice0 :: "string \<Rightarrow> int \<Rightarrow> string" where
  "slice0 text e = (if e < 0 then take (nat (int (length text) + e)) text else take (nat e) text)"

definition truncateText :: "string \<Rightarrow> nat \<Rightarrow> string" where
  "truncateText text maxLength =
     (if length text \<le> maxLength then text
      else slice0 text (int maxLength - 3) @ ''...'')"

text \<open>
  \<open>generateCommentId\<close> draws on the clock and on \<open>Math.random\<close>. The ids it
  returns are a parameter \<open>genId\<close>: \<open>genId i\<close> is the id drawn while the loop is at
  its \<open>i\<close>-th element.
\<close>

definition extractCommentsFromElements ::
  "(nat \<Rightarrow> string) \<Rightarrow> Element list \<Rightarrow> string list \<Rightarrow> string list \<Rightarrow> nat \<Rightarrow> Comment list" where
  "extractCommentsFromElements genId elements textSelector authorSelector maxComments =
     List.map_filter
       (\<lambda>(i, element).
          let textEl = queryFirstWithin element textSelector;
              authorEl = queryFirstWithin element authorSelector;
              text = getTextContent textEl;
              author = or_default (Some (getTextContent authorEl)) ''Anonymous''
          in if text \<noteq> []
             then Some \<lparr>comment_id = genId i, author = author,
                        comment_text = truncateText text 2000,
                        parentId = None, depth = Num 0\<rparr>
             else None)
       (enumerate 0 (take maxComments elements))"

subsection \<open>Extraction limits\<close>

definition MAX_COMMENTS :: nat where "MAX_COMMENTS = 50"
definition MAX_COMMENT_DEPTH :: int where "MAX_COMMENT_DEPTH = 3"
definition MAX_POST_TITLE_LENGTH :: nat where "MAX_POST_TITLE_LENGTH = 500"
definition MAX_POST_BODY_LENGTH :: nat where "MAX_POST_BODY_LENGTH = 10000"

subsection \<open>Reddit\<close>

definition REDDIT_commentContainer :: "string list" where
  "REDDIT_commentContainer =
     [''shreddit-comment'', ''[data-testid='' @ quoted ''comment'' @ '']'', ''.Comment'',
      ''.comment .entry'', ''.thing.comment'']"

definition REDDIT_commentText :: "string list" where
  "REDDIT_commentText =
     [''div[slot='' @ quoted ''comment'' @ '']'',
      ''[data-testid='' @ quoted ''comment-rtjson-content'' @ '']'',
      ''.Comment .RichTextJSON-root'', ''.usertext-body .md'', ''.md'']"

definition REDDIT_commentAuthor :: "string list" where
  "REDDIT_commentAuthor =
     [''a[slot='' @ quoted ''authorName'' @ '']'',
      ''[data-testid='' @ quoted ''comment_author_link'' @ '']'',
      ''.Comment__author'', ''.author'', ''a.author'']"

definition digitsValue :: "string \<Rightarrow> int" where
  "digitsValue ds = foldl (\<lambda>acc c. acc * 10 + (int (charCode c) - 48)) 0 ds"

text \<open>\<open>parseInt(s, 10)\<close>: white space, an optional sign, then the longest run of
  digits; \<open>NaN\<close> when there is no digit.\<close>

definition parseInt10 :: "string \<Rightarrow> jsnum" where
  "parseInt10 s =
     (let s1 = dropWhile isWhiteSpace s;
          negative = (take 1 s1 = ''-'');
          s2 = (if take 1 s1 = ''-'' \<or> take 1 s1 = ''+'' then drop 1 s1 else s1);
          ds = takeWhile isDigit s2
      in if ds = [] then NaN
         else Num (if negative then - digitsValue ds else digitsValue ds))"

text \<open>\<open>depth > MAX_COMMENT_DEPTH\<close>: every comparison with \<open>NaN\<close> is false.\<close>

definition exceedsDepth :: "jsnum \<Rightarrow> bool" where
  "exceedsDepth d = (case d of Num n \<Rightarrow> n > MAX_COMMENT_DEPTH | NaN \<Rightarrow> False)"

fun join_str :: "string \<Rightarrow> string list \<Rightarrow> string" where
  "join_str sep [] = []"
| "join_str sep [x] = x"
| "join_str sep (x # y # ys) = x @ sep @ join_str sep (y # ys)"

text \<open>
  The text of a \<open>shreddit-comment\<close> element, as \<open>extractShredditComment\<close>
  finds it: the trimmed text of the comment slot; if that is empty, the attribute
  \<open>comment-body\<close> or \<open>content\<close>, as it is; if there is still none and the
  element has paragraphs, their trimmed texts joined by line feeds.
\<close>

definition shredditCommentText :: "Element \<Rightarrow> string" where
  "shredditCommentText element =
     (let commentSlot = querySelector element (''[slot='' @ quoted ''comment'' @ '']'');
          text0 = (case commentSlot of Some slot \<Rightarrow> getTextContent (Some slot) | None \<Rightarrow> []);
          text1 = (if text0 = []
                   then or_default
                          (js_or (getAttribute element ''comment-body'')
                                 (getAttribute element ''content'')) []
                   else text0);
          paragraphs = querySelectorAll element ''p''
      in if text1 = [] \<and> length paragraphs > 0
         then join_str [char_of (10 :: nat)]
                (map (\<lambda>p. getTextContent (Some p)) paragraphs)
         else text1)"

definition extractShredditComment :: "string \<Rightarrow> Element \<Rightarrow> Comment option" where
  "extractShredditComment freshId element =
     (let author = or_default (getAttribute element ''author'') ''[deleted]'';
          depthStr = getAttribute element ''depth'';
          depth = (case depthStr of Some (c # cs) \<Rightarrow> parseInt10 (c # cs) | _ \<Rightarrow> Num 0)
      in if exceedsDepth depth then None
         else
           let text = shredditCommentText element
           in if text = [] then None
              else Some \<lparr>comment_id = or_default (getAttribute element ''thingid'') freshId,
                         author = author,
                         comment_text = truncateText text 2000,
                         parentId = js_or (getAttribute element ''parentid'') None,
                         depth = depth\<rparr>)"

definition RedditAdapter_extractSingleComment ::
  "string \<Rightarrow> Element \<Rightarrow> int \<Rightarrow> Comment option" where
  "RedditAdapter_extractSingleComment freshId element d =
     (if d > MAX_COMMENT_DEPTH then None
      else
        let textEl = queryFirstWithin element REDDIT_commentText;
            authorEl = queryFirstWithin element REDDIT_commentAuthor;
            text = getTextContent textEl;
            author = or_default (Some (getTextContent authorEl)) ''[deleted]''
        in if text = [] then None
           else Some \<lparr>comment_id = freshId, author = author,
                      comment_text = truncateText text 2000,
                      parentId = None, depth = Num d\<rparr>)"

definition RedditAdapter_extractComments :: "(nat \<Rightarrow> string) \<Rightarrow> Element \<Rightarrow> Comment list" where
  "RedditAdapter_extractComments genId doc =
     (let shredditComments = querySelectorAll doc ''shreddit-comment''
      in if length shredditComments > 0
         then List.map_filter (\<lambda>(i, element). extractShredditComment (genId i) element)
                (enumerate 0 (take MAX_COMMENTS shredditComments))
         else
           let commentElements = queryAll doc REDDIT_commentContainer
           in List.map_filter
                (\<lambda>(i, element). RedditAdapter_extractSingleComment (genId i) element 0)
                (enumerate 0 (take MAX_COMMENTS commentElements)))"

text \<open>
  \<open>extractPostTitle\<close> and \<open>extractPostBody\<close> walk the page through several
  fallbacks. What the adapters do with the text they return is the same for every
  text, so the two functions are parameters here (as is the body extraction of the
  Facebook adapter and the main tweet of the Twitter adapter below). The page is the
  page at the time of the extraction: the polling that the Twitter and Facebook
  adapters do before they read it is left out. An adapter turns an exception of the
  page into the result null; the page of this development does not throw, so
  \<open>None\<close> is the result null.
\<close>

definition RedditAdapter_extractThreadContext ::
  "(Page \<Rightarrow> string) \<Rightarrow> (Page \<Rightarrow> string) \<Rightarrow> (nat \<Rightarrow> string) \<Rightarrow> Page \<Rightarrow> ThreadContext option" where
  "RedditAdapter_extractThreadContext extractPostTitle extractPostBody genId page =
     (let postTitle = extractPostTitle page;
          postBody = extractPostBody page;
          comments = RedditAdapter_extractComments genId (document page)
      in if postTitle = [] then None
         else Some \<lparr>platform = ''reddit'',
                    url = location_href page,
                    postTitle = truncateText postTitle MAX_POST_TITLE_LENGTH,
                    postBody = truncateText postBody MAX_POST_BODY_LENGTH,
                    postAuthor = None,
                    comments = comments,
                    extractedAt = date_now page\<rparr>)"

subsection \<open>Twitter\<close>

definition tweetSelector :: string where
  "tweetSelector = ''article[data-testid='' @ quoted ''tweet'' @ '']''"

definition tweetTextSelector :: string where
  "tweetTextSelector = ''[data-testid='' @ quoted ''tweetText'' @ '']''"

definition userNameSelector :: string where
  "userNameSelector = ''[data-testid='' @ quoted ''User-Name'' @ ''] a''"

definition statusLinkSelector :: string where
  "statusLinkSelector = ''a[href*='' @ quoted ''/status/'' @ '']''"

text \<open>\<open>pathname.match(/\/status\/(\d+)/)\<close>: the digits after the first
  \<open>/status/\<close> that a digit follows; the empty string when there is none.\<close>

fun matchStatusId :: "string \<Rightarrow> string option" where
  "matchStatusId [] = None"
| "matchStatusId (c # cs) =
     (if take 8 (c # cs) = ''/status/'' \<and> takeWhile isDigit (drop 8 (c # cs)) \<noteq> []
      then Some (takeWhile isDigit (drop 8 (c # cs)))
      else matchStatusId cs)"

definition getTweetIdFromUrl :: "string \<Rightarrow> string" where
  "getTweetIdFromUrl path = (case matchStatusId path of Some d \<Rightarrow> d | None \<Rightarrow> [])"

definition extractTwitterUsername :: "Element option \<Rightarrow> string" where
  "extractTwitterUsername element =
     (case element of
        None \<Rightarrow> ''Unknown''
      | Some el \<Rightarrow>
          (case getAttribute el ''href'' of
             Some (CHR ''/'' # rest) \<Rightarrow> ''@'' @ rest
           | _ \<Rightarrow>
               let text = getTextContent (Some el)
               in if take 1 text = ''@'' then text else ''@'' @ text))"

text \<open>\<open>timeLink && timeLink.getAttribute('href')?.includes(mainTweetId)\<close>.\<close>

definition linksToTweet :: "Element \<Rightarrow> string \<Rightarrow> bool" where
  "linksToTweet tweet tweetId =
     (case querySelector tweet statusLinkSelector of
        None \<Rightarrow> False
      | Some timeLink \<Rightarrow>
          (case getAttribute timeLink ''href'' of
             None \<Rightarrow> False
           | Some href \<Rightarrow> includes_str href tweetId))"

text \<open>The loop of \<open>extractReplies\<close> over the tweets that are left, with its three
  variables: \<open>foundMainTweet\<close>, \<open>replyCount\<close> and the comments so far. \<open>i\<close> is the
  position of the loop.\<close>

fun extractReplies_loop ::
  "(nat \<Rightarrow> string) \<Rightarrow> string \<Rightarrow> nat \<Rightarrow> Element list \<Rightarrow> bool \<Rightarrow> nat \<Rightarrow> Comment list
     \<Rightarrow> Comment list" where
  "extractReplies_loop genId mainTweetId i [] foundMainTweet replyCount acc = acc"
| "extractReplies_loop genId mainTweetId i (tweet # rest) foundMainTweet replyCount acc =
     (if linksToTweet tweet mainTweetId
      then extractReplies_loop genId mainTweetId (Suc i) rest True replyCount acc
      else if \<not> foundMainTweet
      then extractReplies_loop genId mainTweetId (Suc i) rest foundMainTweet replyCount acc
      else if replyCount \<ge> MAX_COMMENTS then acc
      else
        let textEl = querySelector tweet tweetTextSelector;
            authorEl = querySelector tweet userNameSelector;
            text = getTextContent textEl;
            author = extractTwitterUsername authorEl
        in if text \<noteq> []
           then extractReplies_loop genId mainTweetId (Suc i) rest foundMainTweet
                  (Suc replyCount)
                  (acc @ [\<lparr>comment_id = genId i, author = author,
                            comment_text = truncateText text 2000,
                            parentId = None, depth = Num 0\<rparr>])
           else extractReplies_loop genId mainTweetId (Suc i) rest foundMainTweet
                  replyCount acc)"

definition extractReplies :: "(nat \<Rightarrow> string) \<Rightarrow> Page \<Rightarrow> Comment list" where
  "extractReplies genId page =
     (let allTweets = querySelectorAll (document page) tweetSelector;
          mainTweetId = getTweetIdFromUrl (location_pathname page)
      in extractReplies_loop genId mainTweetId 0 allTweets False 0 [])"

definition TwitterAdapter_extractThreadContext ::
  "(Page \<Rightarrow> string \<times> string) \<Rightarrow> (nat \<Rightarrow> string) \<Rightarrow> Page \<Rightarrow> ThreadContext option" where
  "TwitterAdapter_extractThreadContext extractMainTweet genId page =
     (case extractMainTweet page of
        (mainTweet, mainAuthor) \<Rightarrow>
          let replies = extractReplies genId page
          in if mainTweet = [] then None
             else Some \<lparr>platform = ''twitter'',
                        url = location_href page,
                        postTitle = [],
                        postBody = truncateText mainTweet MAX_POST_BODY_LENGTH,
                        postAuthor = Some mainAuthor,
                        comments = replies,
                        extractedAt = date_now page\<rparr>)"

subsection \<open>Facebook\<close>

definition FACEBOOK_commentAuthor :: "string list" where
  "FACEBOOK_commentAuthor =
     [''a[role='' @ quoted ''link'' @ ''][tabindex='' @ quoted ''0'' @ '']'',
      ''.UFICommentActorName'', ''span.fwb a'']"

text \<open>
  \<open>extractTextFromFacebookElement\<close> walks the text nodes below the element, keeps
  the trimmed text of each node that is not empty and not an emoji, and joins them
  with spaces. \<open>isEmoji\<close> tests for code points beyond the code units of this
  development, so the test is a parameter.
\<close>

definition extractTextFromFacebookElement :: "(string \<Rightarrow> bool) \<Rightarrow> Element option \<Rightarrow> string" where
  "extractTextFromFacebookElement isEmoji element =
     (case element of
        None \<Rightarrow> []
      | Some el \<Rightarrow>
          let texts = filter (\<lambda>text. text \<noteq> [] \<and> \<not> isEmoji text) (map trim (textNodes el))
          in trim (join_str '' '' texts))"

text \<open>The text of a comment container: the longest text among its text elements, the
  first of them among equals.\<close>

definition facebookCommentText :: "(string \<Rightarrow> bool) \<Rightarrow> Element \<Rightarrow> string" where
  "facebookCommentText isEmoji container =
     (let textElements =
            querySelectorAll container
              (''div[dir='' @ quoted ''auto'' @ ''] span, .UFICommentBody'')
      in foldl (\<lambda>text el.
                  let t = extractTextFromFacebookElement isEmoji (Some el)
                  in if t \<noteq> [] \<and> length t > length text then t else text)
           [] textElements)"

definition FacebookAdapter_extractSingleComment ::
  "(string \<Rightarrow> bool) \<Rightarrow> string \<Rightarrow> Element \<Rightarrow> Comment option" where
  "FacebookAdapter_extractSingleComment isEmoji freshId container =
     (let text = facebookCommentText isEmoji container
      in if text = [] then None
         else
           let authorEl = queryFirstWithin container FACEBOOK_commentAuthor;
               author = or_default (Some (getTextContent authorEl)) ''Facebook User''
           in Some \<lparr>comment_id = freshId, author = author,
                     comment_text = truncateText text 2000,
                     parentId = None, depth = Num 0\<rparr>)"

definition findCommentContainers :: "Element \<Rightarrow> Element list" where
  "findCommentContainers doc =
     querySelectorAll doc (''[aria-label*='' @ quoted ''Comment'' @ '']'')
     @ querySelectorAll doc ''.UFICommentContent''"

definition FacebookAdapter_extractComments ::
  "(string \<Rightarrow> bool) \<Rightarrow> (nat \<Rightarrow> string) \<Rightarrow> Element \<Rightarrow> Comment list" where
  "FacebookAdapter_extractComments isEmoji genId doc =
     List.map_filter
       (\<lambda>(i, container). FacebookAdapter_extractSingleComment isEmoji (genId i) container)
       (enumerate 0 (take MAX_COMMENTS (findCommentContainers doc)))"

definition FacebookAdapter_extractThreadContext ::
  "(Page \<Rightarrow> string) \<Rightarrow> (string \<Rightarrow> bool) \<Rightarrow> (nat \<Rightarrow> string) \<Rightarrow> Page \<Rightarrow> ThreadContext option" where
  "FacebookAdapter_extractThreadContext extractPostBody isEmoji genId page =
     (let postBody = extractPostBody page;
          comments = FacebookAdapter_extractComments isEmoji genId (document page)
      in if postBody = [] then None
         else Some \<lparr>platform = ''facebook'',
                    url = location_href page,
                    postTitle = [],
                    postBody = truncateText postBody MAX_POST_BODY_LENGTH,
                    postAuthor = None,
                    comments = comments,
                    extractedAt = date_now page\<rparr>)"

subsection \<open>Truncation in the prompt builder\<close>

text \<open>\<open>s.lastIndexOf(c)\<close>: the last position of \<open>c\<close> in \<open>s\<close>, or \<open>-1\<close>.\<close>

definition lastIndexOf :: "string \<Rightarrow> char \<Rightarrow> int" where
  "lastIndexOf s c =
     (if c \<in> set s
      then int (length s) - 1 - int (length (takeWhile (\<lambda>x. x \<noteq> c) (rev s)))
      else - 1)"

text \<open>
  \<open>truncateForPrompt\<close> of the prompt builder is the one truncation of the repository
  that looks for a sentence or line boundary. Its test \<open>cutPoint > maxLength * 0.7\<close>
  compares an integer with a binary64 product: the literal \<open>0.7\<close> is the binary64
  number \<open>6305039478318694 / 2 ^ 53\<close>, and the product with \<open>maxLength\<close> is
  rounded to binary64 (for \<open>maxLength = 90\<close> it is just below 63). Both sides
  are in units of \<open>1 / 2 ^ 53\<close>. A \<open>cutPoint\<close> of \<open>-1\<close>, no boundary
  found, is not greater than the product.
\<close>

definition SEVENTY_PERCENT :: nat where
  "SEVENTY_PERCENT = 6305039478318694"

definition pastSeventyPercent :: "int \<Rightarrow> nat \<Rightarrow> bool" where
  "pastSeventyPercent cutPoint maxLength =
     (0 \<le> cutPoint \<and> nat cutPoint * 2 ^ 53 > roundToDouble (maxLength * SEVENTY_PERCENT))"

definition truncateForPrompt :: "string \<Rightarrow> nat \<Rightarrow> string" where
  "truncateForPrompt text maxLength =
     (if length text \<le> maxLength then text
      else
        let truncated = take maxLength text;
            lastPeriod = lastIndexOf truncated CHR ''.'';
            lastNewline = lastIndexOf truncated (char_of (10 :: nat));
            cutPoint = max lastPeriod lastNewline
        in if pastSeventyPercent cutPoint maxLength
           then slice0 truncated (cutPoint + 1) @ [char_of (10 :: nat)] @ ''[Content truncated]''
           else truncated @ ''... [Content truncated]'')"

section \<open>Cache store\<close>

record AISuggestion =
  suggestion_id :: string
  suggestion_text :: string
  suggestion_tone :: string
  generatedAt :: int

record CacheEntry =
  cacheKey :: string
  threadUrl :: string
  tone :: string
  suggestions :: "AISuggestion list"
  threadSummary :: string
  createdAt :: int
  expiresAt :: int

record CacheIndex =
  keys :: "string list"
  totalSize :: int
  lastPruned :: int

text \<open>
  \<open>chrome.storage.local\<close> holds one record per entry under the storage key
  \<open>cache_\<close> followed by the cache key, and the index under \<open>cacheIndex\<close>. No storage
  key of an entry is the key of the index, so the store is a map from cache keys to
  entries beside the index, which is absent until it is first saved.
\<close>

record LocalStorage =
  cache :: "string \<rightharpoonup> CacheEntry"
  cacheIndex :: "CacheIndex option"

definition MAX_STORAGE_BYTES :: int where
  "MAX_STORAGE_BYTES = 8 * 1024 * 1024"

definition MAX_ENTRY_SIZE_BYTES :: nat where
  "MAX_ENTRY_SIZE_BYTES = 100 * 1024"

text \<open>
  \<open>PRUNE_PERCENTAGE\<close> is the literal \<open>0.2\<close>, a binary64 number: its value is
  \<open>3602879701896397 / 2 ^ 54\<close>. Numbers of this section that stand for a binary64
  value are natural numbers in units of \<open>1 / 2 ^ 54\<close>, rounded by
  \<open>roundToDouble\<close>.
\<close>

definition PRUNE_PERCENTAGE :: nat where
  "PRUNE_PERCENTAGE = 3602879701896397"

datatype cache_error = EntryTooLarge

text \<open>
  Two inputs of the cache functions come from the platform and are parameters of
  every function below: \<open>now\<close>, the value of \<open>Date.now()\<close> during the call, and
  \<open>estimateSize\<close>, the byte size of the JSON text of an entry. The clock is read
  once per call of the outermost function; it never goes back, so an entry that is
  expired at one read is expired at every later one. The storage calls themselves
  do not fail.
\<close>

definition getCacheIndex :: "int \<Rightarrow> LocalStorage \<Rightarrow> CacheIndex" where
  "getCacheIndex now s =
     (case cacheIndex s of
        Some stored \<Rightarrow> stored
      | None \<Rightarrow> \<lparr>keys = [], totalSize = 0, lastPruned = now\<rparr>)"

definition saveCacheIndex :: "CacheIndex \<Rightarrow> LocalStorage \<Rightarrow> LocalStorage" where
  "saveCacheIndex index s = s\<lparr>cacheIndex := Some index\<rparr>"

text \<open>
  \<open>getCacheEntry\<close> calls \<open>removeCacheEntry\<close> for an expired entry, and
  \<open>removeCacheEntry\<close> starts with a call of \<open>getCacheEntry\<close>, so the two functions
  are mutually recursive. The first argument bounds the depth of the calls: the result
  \<open>None\<close> says that this depth did not suffice. A call returns in the source exactly
  when some depth gives \<open>Some\<close> result.
\<close>

fun getCacheEntry ::
      "nat \<Rightarrow> (CacheEntry \<Rightarrow> nat) \<Rightarrow> int \<Rightarrow> string \<Rightarrow> LocalStorage
         \<Rightarrow> (CacheEntry option \<times> LocalStorage) option"
  and removeCacheEntry ::
      "nat \<Rightarrow> (CacheEntry \<Rightarrow> nat) \<Rightarrow> int \<Rightarrow> string \<Rightarrow> LocalStorage \<Rightarrow> LocalStorage option"
where
  "getCacheEntry 0 estimateSize now k s = None"
| "getCacheEntry (Suc fuel) estimateSize now k s =
     (case cache s k of
        None \<Rightarrow> Some (None, s)
      | Some entry \<Rightarrow>
          if now > expiresAt entry
          then (case removeCacheEntry fuel estimateSize now k s of
                  None \<Rightarrow> None
                | Some s1 \<Rightarrow> Some (None, s1))
          else Some (Some entry, s))"
| "removeCacheEntry 0 estimateSize now k s = None"
| "removeCacheEntry (Suc fuel) estimateSize now k s =
     (case getCacheEntry fuel estimateSize now k s of
        None \<Rightarrow> None
      | Some (entry, s1) \<Rightarrow>
          let entrySize = (case entry of Some e \<Rightarrow> int (estimateSize e) | None \<Rightarrow> 0);
              s2 = s1\<lparr>cache := (cache s1)(k := None)\<rparr>;
              index = getCacheIndex now s2;
              index1 = index\<lparr>keys := filter (\<lambda>x. x \<noteq> k) (keys index)\<rparr>;
              index2 = index1\<lparr>totalSize := max 0 (totalSize index1 - entrySize)\<rparr>
          in Some (saveCacheIndex index2 s2))"

text \<open>The loop \<open>for (const entry of toRemove) await removeCacheEntry(entry.key)\<close>.\<close>

fun removeEntries ::
  "nat \<Rightarrow> (CacheEntry \<Rightarrow> nat) \<Rightarrow> int \<Rightarrow> string list \<Rightarrow> LocalStorage \<Rightarrow> LocalStorage option" where
  "removeEntries fuel estimateSize now [] s = Some s"
| "removeEntries fuel estimateSize now (k # ks) s =
     (case removeCacheEntry fuel estimateSize now k s of
        None \<Rightarrow> None
      | Some s1 \<Rightarrow> removeEntries fuel estimateSize now ks s1)"

text \<open>
  \<open>Math.ceil(entries.length * CACHE_CONFIG.PRUNE_PERCENTAGE)\<close>: the length is an
  integer below \<open>2 ^ 53\<close> and so a binary64 number itself; the product is the exact
  product rounded to binary64; \<open>Math.ceil\<close> is exact.
\<close>

definition removeCount :: "nat \<Rightarrow> nat" where
  "removeCount n = (roundToDouble (n * PRUNE_PERCENTAGE) + 2 ^ 54 - 1) div 2 ^ 54"

text \<open>The entries that \<open>pruneCache\<close> collects: key, creation time and size of every
  key of the index that has an entry in the store.\<close>

definition collectEntries ::
  "(CacheEntry \<Rightarrow> nat) \<Rightarrow> string list \<Rightarrow> LocalStorage \<Rightarrow> (string \<times> int \<times> nat) list" where
  "collectEntries estimateSize ks s =
     List.map_filter
       (\<lambda>k. case cache s k of
               Some entry \<Rightarrow> Some (k, createdAt entry, estimateSize entry)
             | None \<Rightarrow> None)
       ks"

text \<open>\<open>entries.sort((a, b) => a.createdAt - b.createdAt)\<close> is a stable sort by
  creation time, and \<open>slice(0, removeCount)\<close> takes its first elements.\<close>

definition toRemove :: "(string \<times> int \<times> nat) list \<Rightarrow> (string \<times> int \<times> nat) list" where
  "toRemove entries =
     take (removeCount (length entries)) (sort_key (\<lambda>(k, created, size). created) entries)"

definition pruneCache ::
  "nat \<Rightarrow> (CacheEntry \<Rightarrow> nat) \<Rightarrow> int \<Rightarrow> CacheIndex option \<Rightarrow> LocalStorage
     \<Rightarrow> LocalStorage option" where
  "pruneCache fuel estimateSize now index s =
     (let currentIndex = (case index of Some given \<Rightarrow> given | None \<Rightarrow> getCacheIndex now s);
          entries = collectEntries estimateSize (keys currentIndex) s
      in case removeEntries fuel estimateSize now (map fst (toRemove entries)) s of
           None \<Rightarrow> None
         | Some s1 \<Rightarrow>
             let newIndex = getCacheIndex now s1
             in Some (saveCacheIndex (newIndex\<lparr>lastPruned := now\<rparr>) s1))"

text \<open>\<open>saveCacheEntry\<close>: \<open>Some (Inl e)\<close> is the thrown error, \<open>Some (Inr s)\<close> the
  store after the call.\<close>

definition saveCacheEntry ::
  "nat \<Rightarrow> (CacheEntry \<Rightarrow> nat) \<Rightarrow> int \<Rightarrow> CacheEntry \<Rightarrow> LocalStorage
     \<Rightarrow> (cache_error + LocalStorage) option" where
  "saveCacheEntry fuel estimateSize now entry s =
     (let entrySize = estimateSize entry
      in if entrySize > MAX_ENTRY_SIZE_BYTES then Some (Inl EntryTooLarge)
         else
           let index = getCacheIndex now s;
               index1 = (if cacheKey entry \<notin> set (keys index)
                         then index\<lparr>keys := keys index @ [cacheKey entry]\<rparr>
                         else index);
               index2 = index1\<lparr>totalSize := totalSize index1 + int entrySize\<rparr>
           in case (if totalSize index2 > MAX_STORAGE_BYTES
                    then pruneCache fuel estimateSize now (Some index2) s
                    else Some s) of
                None \<Rightarrow> None
              | Some s1 \<Rightarrow>
                  Some (Inr (saveCacheIndex index2
                               (s1\<lparr>cache := (cache s1)(cacheKey entry \<mapsto> entry)\<rparr>))))"

section \<open>Predicates of the statements and example data\<close>

text \<open>\<open>hardCut raw maxLength stored\<close>: \<open>stored\<close> is \<open>raw\<close> when \<open>raw\<close> fits into
  \<open>maxLength\<close> code units, and otherwise the first \<open>maxLength - 3\<close> code units of
  \<open>raw\<close> followed by three dots.\<close>

definition hardCut :: "string \<Rightarrow> nat \<Rightarrow> string \<Rightarrow> bool" where
  "hardCut raw maxLength stored =
     (if length raw \<le> maxLength then stored = raw
      else stored = take (maxLength - 3) raw @ ''...'')"

text \<open>The texts that an adapter finds for the candidate elements of a page, before it
  truncates them: one text for each element that may become a comment.\<close>

definition RedditAdapter_candidateTexts :: "Element \<Rightarrow> string list" where
  "RedditAdapter_candidateTexts doc =
     (let shredditComments = querySelectorAll doc ''shreddit-comment''
      in if length shredditComments > 0 then map shredditCommentText shredditComments
         else map (\<lambda>element. getTextContent (queryFirstWithin element REDDIT_commentText))
                (queryAll doc REDDIT_commentContainer))"

definition TwitterAdapter_candidateTexts :: "Page \<Rightarrow> string list" where
  "TwitterAdapter_candidateTexts page =
     map (\<lambda>tweet. getTextContent (querySelector tweet tweetTextSelector))
       (querySelectorAll (document page) tweetSelector)"

definition FacebookAdapter_candidateTexts :: "(string \<Rightarrow> bool) \<Rightarrow> Element \<Rightarrow> string list" where
  "FacebookAdapter_candidateTexts isEmoji doc =
     map (facebookCommentText isEmoji) (findCommentContainers doc)"

text \<open>\<open>cutFrom raws c\<close>: the text of the comment \<open>c\<close> is one of the texts
  \<open>raws\<close>, stored as it is when it fits into 2000 code units and otherwise cut to its
  first 1997 code units with three dots appended.\<close>

definition cutFrom :: "string list \<Rightarrow> Comment \<Rightarrow> bool" where
  "cutFrom raws c = list_ex (\<lambda>raw. hardCut raw 2000 (comment_text c)) raws"

definition stored_ok :: "Comment \<Rightarrow> bool" where
  "stored_ok c =
     (comment_text c \<noteq> [] \<and> author c \<noteq> [] \<and> length (comment_text c) \<le> 2000)"

definition leaf :: "string \<Rightarrow> Element" where
  "leaf t = Element (\<lambda>a. None) [t] (\<lambda>selector. [])"

definition linkEl :: "string \<Rightarrow> string \<Rightarrow> Element" where
  "linkEl href t =
     Element (\<lambda>a. if a = ''href'' then Some href else None) [t] (\<lambda>selector. [])"

text \<open>A tweet with its permalink, its text and, if it has one, the link of its author.\<close>

definition tweetEl :: "string \<Rightarrow> string \<Rightarrow> Element option \<Rightarrow> Element" where
  "tweetEl status t authorEl =
     Element (\<lambda>a. None) [t]
       (\<lambda>selector.
          if selector = statusLinkSelector then [linkEl status []]
          else if selector = tweetTextSelector then [leaf t]
          else if selector = userNameSelector
          then (case authorEl of None \<Rightarrow> [] | Some a \<Rightarrow> [a])
          else [])"

definition twitterPage :: Page where
  "twitterPage =
     \<lparr>document =
        Element (\<lambda>a. None) []
          (\<lambda>selector.
             if selector = tweetSelector
             then [tweetEl ''/user/status/123456789'' ''Main tweet'' (Some (linkEl ''/user'' ''User'')),
                   tweetEl ''/bob/status/5'' ''First reply'' (Some (linkEl ''/bob'' ''Bob'')),
                   tweetEl ''/eve/status/6'' ''Second reply'' None]
             else []),
      location_href = ''https://x.com/user/status/123456789'',
      location_pathname = ''/user/status/123456789'',
      date_now = 1000\<rparr>"

text \<open>An old-Reddit comment: its text, and no author element.\<close>

definition redditCommentEl :: Element where
  "redditCommentEl =
     Element (\<lambda>a. None) [''Nice post'']
       (\<lambda>selector. if selector = ''.md'' then [leaf ''Nice post''] else [])"

text \<open>An old-Reddit comment of 2005 code units.\<close>

definition longCommentEl :: Element where
  "longCommentEl =
     Element (\<lambda>a. None) []
       (\<lambda>selector. if selector = ''.md'' then [leaf (replicate 2005 CHR ''c'')] else [])"

definition longTitle :: string where
  "longTitle = replicate 400 CHR ''a'' @ ''.'' @ replicate 200 CHR ''b''"

definition redditPage :: Page where
  "redditPage =
     \<lparr>document =
        Element (\<lambda>a. None) []
          (\<lambda>selector. if selector = ''.thing.comment'' then [redditCommentEl] else []),
      location_href = ''https://www.reddit.com/r/test/comments/abc123/post_title'',
      location_pathname = ''/r/test/comments/abc123/post_title'',
      date_now = 1000\<rparr>"

text \<open>
  A new-Reddit page whose \<open>shreddit-post\<close> has the title attribute of one space,
  with two comments: one with a \<open>comment-body\<close> attribute of one space, and one
  with two empty paragraphs. \<open>shredditPostTitle\<close> is the first branch of
  \<open>extractPostTitle\<close>, which returns the attribute \<open>post-title\<close> as it is.
\<close>

definition blankShredditComment :: Element where
  "blankShredditComment =
     Element (\<lambda>a. if a = ''comment-body'' then Some '' '' else None) [] (\<lambda>selector. [])"

definition emptyParagraphsComment :: Element where
  "emptyParagraphsComment =
     Element (\<lambda>a. None) [] (\<lambda>selector. if selector = ''p'' then [leaf [], leaf []] else [])"

definition blankRedditPage :: Page where
  "blankRedditPage =
     \<lparr>document =
        Element (\<lambda>a. None) []
          (\<lambda>selector.
             if selector = ''shreddit-post''
             then [Element (\<lambda>a. if a = ''post-title'' then Some '' '' else None) []
                     (\<lambda>selector. [])]
             else if selector = ''shreddit-comment''
             then [blankShredditComment, emptyParagraphsComment]
             else []),
      location_href = ''https://www.reddit.com/r/test/comments/abc123/post_title'',
      location_pathname = ''/r/test/comments/abc123/post_title'',
      date_now = 1000\<rparr>"

definition shredditPostTitle :: "Page \<Rightarrow> string" where
  "shredditPostTitle page =
     (case querySelector (document page) ''shreddit-post'' of
        Some shredditPost \<Rightarrow> or_default (getAttribute shredditPost ''post-title'') []
      | None \<Rightarrow> [])"

definition exampleComment :: Comment where
  "exampleComment =
     \<lparr>comment_id = ''t1_a'', author = ''alice'', comment_text = ''Nice post'',
      parentId = None, depth = Num 0\<rparr>"

definition contextWithoutUrl :: ThreadContext where
  "contextWithoutUrl =
     \<lparr>platform = ''reddit'', url = [], postTitle = ''Test Post'', postBody = ''Body'',
      postAuthor = None, comments = [exampleComment], extractedAt = 1000\<rparr>"

definition adapterReturning :: "ThreadContext \<Rightarrow> (unit, unit, unit) PlatformAdapter" where
  "adapterReturning ctx =
     \<lparr>extractThreadContext = (\<lambda>page. Inr (Some ctx)),
      getInputText = (\<lambda>el page. Inr []),
      setInputText = (\<lambda>el t append page. (None, page))\<rparr>"

text \<open>An adapter over a page that is the text of one input: writing \<open>boom\<close> throws
  and leaves the input half written.\<close>

definition throwingAdapter :: "(string, unit, string) PlatformAdapter" where
  "throwingAdapter =
     \<lparr>extractThreadContext = (\<lambda>page. Inr None),
      getInputText = (\<lambda>el page. Inr page),
      setInputText =
        (\<lambda>el t append page.
           if t = ''boom'' then (Some ''DOMException'', ''half'')
           else (None, if append then page @ t else t))\<rparr>"

subsection \<open>Case in URLs\<close>





subsection \<open>Predicates and abbreviations of the cache statements\<close>

text \<open>\<open>allLive now s\<close>: no entry of the store is expired at the time \<open>now\<close>.\<close>

definition allLive :: "int \<Rightarrow> LocalStorage \<Rightarrow> bool" where
  "allLive now s = (\<forall>k e. cache s k = Some e \<longrightarrow> \<not> now > expiresAt e)"

text \<open>The store after \<open>removeCacheEntry\<close> has removed the key \<open>k\<close>, given that
  the read at its start returned: the entry is gone, the key is filtered out of the
  stored index and the size of the entry is taken off the total, which stops at 0.\<close>

definition afterRemove :: "(CacheEntry \<Rightarrow> nat) \<Rightarrow> int \<Rightarrow> string \<Rightarrow> LocalStorage \<Rightarrow> LocalStorage" where
  "afterRemove estimateSize now k s =
     (let entrySize = (case cache s k of Some e \<Rightarrow> int (estimateSize e) | None \<Rightarrow> 0);
          s2 = s\<lparr>cache := (cache s)(k := None)\<rparr>;
          index = getCacheIndex now s2
      in saveCacheIndex
           (index\<lparr>keys := filter (\<lambda>x. x \<noteq> k) (keys index),
                  totalSize := max 0 (totalSize index - entrySize)\<rparr>) s2)"

text \<open>The index that \<open>saveCacheEntry\<close> holds in memory after its update: the stored
  index with the key added if it is new, and the size of the entry added to the total.\<close>

definition updatedIndex :: "(CacheEntry \<Rightarrow> nat) \<Rightarrow> int \<Rightarrow> CacheEntry \<Rightarrow> LocalStorage \<Rightarrow> CacheIndex" where
  "updatedIndex estimateSize now entry s =
     (let index = getCacheIndex now s;
          index1 = (if cacheKey entry \<notin> set (keys index)
                    then index\<lparr>keys := keys index @ [cacheKey entry]\<rparr>
                    else index)
      in index1\<lparr>totalSize := totalSize index1 + int (estimateSize entry)\<rparr>)"

subsection \<open>Example stores\<close>

definition exampleKey :: "nat \<Rightarrow> string" where
  "exampleKey i = [char_of (65 + i div 10), char_of (48 + i mod 10)]"

definition exampleEntry :: "nat \<Rightarrow> CacheEntry" where
  "exampleEntry i =
     \<lparr>cacheKey = exampleKey i, threadUrl = ''https://reddit.com/r/test/comments/123'',
      tone = ''friendly'', suggestions = [], threadSummary = ''summary'',
      createdAt = int i, expiresAt = 5000\<rparr>"

definition storeOf :: "nat \<Rightarrow> LocalStorage" where
  "storeOf n =
     \<lparr>cache = map_of (map (\<lambda>i. (exampleKey i, exampleEntry i)) [0 ..< n]),
      cacheIndex = Some \<lparr>keys = map exampleKey [0 ..< n], totalSize = int n * 102400,
                          lastPruned = 0\<rparr>\<rparr>"

definition newEntry :: CacheEntry where
  "newEntry = (exampleEntry 0)\<lparr>cacheKey := ''new'', createdAt := 1000\<rparr>"

definition expiredStore :: LocalStorage where
  "expiredStore =
     \<lparr>cache = [''k1'' \<mapsto> (exampleEntry 1)\<lparr>cacheKey := ''k1'', expiresAt := 999\<rparr>],
      cacheIndex = Some \<lparr>keys = [''k1''], totalSize = 10, lastPruned = 0\<rparr>\<rparr>"

text \<open>A store of five entries whose oldest entry expired one millisecond before the
  time 1000; the other four expire at 5000.\<close>

definition agedStore :: LocalStorage where
  "agedStore =
     \<lparr>cache = (cache (storeOf 5))(exampleKey 0 \<mapsto> (exampleEntry 0)\<lparr>expiresAt := 999\<rparr>),
      cacheIndex = cacheIndex (storeOf 5)\<rparr>"

definition emptyStore :: LocalStorage where
  "emptyStore = \<lparr>cache = Map.empty, cacheIndex = None\<rparr>"

section \<open>Cache keys: lemmas and theorems\<close>

lemma hashLoop_append: "hashLoop (xs @ ys) = foldl hashStep (hashLoop xs) ys"
  by (simp add: hashLoop_def)

lemma hashStep_Aa_BB:
  "hashStep (hashStep h CHR ''A'') CHR ''a'' = hashStep (hashStep h CHR ''B'') CHR ''B''"
  by (simp add: hashStep_def charCode_def push_bit_eq_mult)

lemma hashString_Aa_BB: "hashString (s @ ''Aa'') = hashString (s @ ''BB'')"
  by (simp add: hashString_def hashLoop_append hashStep_Aa_BB)

text \<open>
  Claim C5, as stated: for every url and every pair of distinct tones \<open>t1\<close> and
  \<open>t2\<close>, \<open>generateCacheKey url t1\<close> differs from \<open>generateCacheKey url t2\<close>.
  The hash has 32 bits and cannot be injective: the distinct tones \<open>Aa\<close> and
  \<open>BB\<close> get the same key, here for the URL of the repository's test.
\<close>

theorem generateCacheKey_tone_collision:
  "\<forall>elsewhere.
     ''Aa'' \<noteq> ''BB'' \<and>
     generateCacheKey elsewhere ''https://reddit.com/r/test/comments/123'' ''Aa''
       = generateCacheKey elsewhere ''https://reddit.com/r/test/comments/123'' ''BB''"
proof -
  have "generateCacheKey elsewhere u ''Aa'' = generateCacheKey elsewhere u ''BB''" for elsewhere u
    using hashString_Aa_BB [of "normalizeUrl elsewhere u @ '':''"]
    by (simp add: generateCacheKey_def)
  then show ?thesis by simp
qed

text \<open>
  Claim C5, amended: on the tested input space, the URL of the repository's cache test
  with the four preset tones (friendly, professional, humorous, concise), distinct tones
  give distinct cache keys.
\<close>

theorem generateCacheKey_presets_distinct:
  "distinct (map (generateCacheKey elsewhere ''https://reddit.com/r/test/comments/123'')
               TONE_PRESETS)"
  by code_simp

subsection \<open>The URL class on examples\<close>

text \<open>
  The query is written anew by \<open>searchParams.delete\<close>, also when no parameter is
  deleted; dot segments are resolved and a space is encoded, \<open>%20\<close> in the path
  and \<open>+\<close> in the query; an empty path is a slash; a string with no scheme is
  lower-cased as it is; a URL with a port is left to the parameter.
\<close>

lemma normalizeUrl_examples:
  "normalizeUrl elsewhere ''https://reddit.com/r/test?a[0]=1''
     = ''https://reddit.com/r/test?a%5b0%5d=1''"
  "normalizeUrl elsewhere ''https://Example.com/a/./b/../c d?q=a b&ref=x#top''
     = ''https://example.com/a/c%20d?q=a+b''"
  "normalizeUrl elsewhere ''https://example.com'' = ''https://example.com/''"
  "normalizeUrl elsewhere ''Not a URL'' = ''not a url''"
  "normalizeUrl elsewhere ''https://example.com:8080/a'' = elsewhere ''https://example.com:8080/a''"
  by code_simp+

subsection \<open>Letter case\<close>

lemma charCode_less: "charCode c < 256"
  by (simp add: charCode_def)



































subsection \<open>Percent-encoding and case\<close>











subsection \<open>URLs with no query\<close>














section \<open>Adapter URL patterns: the listed URLs\<close>

text \<open>
  Claim C7: the adapters' \<open>canHandle\<close> decides the listed URLs. The Reddit adapter
  accepts a post URL with a \<open>/comments/\<close> segment and refuses a subreddit listing;
  the Twitter adapter accepts a status URL on x.com and refuses \<open>/explore\<close>; the
  Facebook adapter accepts a \<open>permalink.php\<close> URL.
\<close>

theorem canHandle_concrete_cases:
  "RedditAdapter_canHandle ''https://www.reddit.com/r/test/comments/abc123/post_title'' = True \<and>
   RedditAdapter_canHandle ''https://www.reddit.com/r/test'' = False \<and>
   TwitterAdapter_canHandle ''https://x.com/user/status/123456789'' = True \<and>
   TwitterAdapter_canHandle ''https://twitter.com/explore'' = False \<and>
   FacebookAdapter_canHandle ''https://www.facebook.com/permalink.php?story_fbid=123'' = True"
  by code_simp

section \<open>Adapters: what they store\<close>

lemma truncateText_hardCut: "3 \<le> m \<Longrightarrow> hardCut t m (truncateText t m)"
  by (auto simp: hardCut_def truncateText_def slice0_def nat_diff_distrib')

lemma length_truncateText: "3 \<le> m \<Longrightarrow> length (truncateText t m) \<le> m"
  by (auto simp: truncateText_def slice0_def)

lemma truncateText_nonempty: "t \<noteq> [] \<Longrightarrow> truncateText t m \<noteq> []"
  by (auto simp: truncateText_def)

lemma or_default_nonempty: "d \<noteq> [] \<Longrightarrow> or_default a d \<noteq> []"
  by (auto simp: or_default_def split: option.splits list.splits)

lemma list_all_map_filter:
  "(\<And>x y. x \<in> set xs \<Longrightarrow> f x = Some y \<Longrightarrow> P y) \<Longrightarrow> list_all P (List.map_filter f xs)"
  by (induction xs) (auto simp: List.map_filter_simps split: option.splits)

lemma in_enumerate_take: "(i, x) \<in> set (enumerate n (take m xs)) \<Longrightarrow> x \<in> set xs"
  by (auto simp: in_set_enumerate_eq dest: in_set_takeD)

lemma stored_okI:
  "t \<noteq> [] \<Longrightarrow> a \<noteq> [] \<Longrightarrow>
   stored_ok \<lparr>comment_id = i, author = a, comment_text = truncateText t 2000,
              parentId = p, depth = d\<rparr>"
  by (auto simp: stored_ok_def truncateText_nonempty length_truncateText)

lemma cutFromI:
  "t \<in> set raws \<Longrightarrow>
   cutFrom raws \<lparr>comment_id = i, author = a, comment_text = truncateText t 2000,
                  parentId = p, depth = d\<rparr>"
  using truncateText_hardCut [of 2000 t] by (auto simp: cutFrom_def list_ex_iff)

subsection \<open>The shared helper\<close>

lemma base_comments_ok:
  "list_all stored_ok (extractCommentsFromElements genId elements ts as n)"
  unfolding extractCommentsFromElements_def
  by (rule list_all_map_filter)
     (auto simp: Let_def stored_okI or_default_nonempty split: if_splits)

lemma base_comments_cut:
  "list_all (cutFrom (map (\<lambda>element. getTextContent (queryFirstWithin element ts)) elements))
     (extractCommentsFromElements genId elements ts as n)"
  unfolding extractCommentsFromElements_def
  by (rule list_all_map_filter)
     (auto simp: Let_def split: if_splits dest!: in_enumerate_take intro!: cutFromI)

subsection \<open>Reddit\<close>

lemma shreddit_ok: "extractShredditComment fid el = Some c \<Longrightarrow> stored_ok c"
  by (auto simp: extractShredditComment_def Let_def stored_okI or_default_nonempty
        split: if_splits)

lemma shreddit_cut:
  "extractShredditComment fid el = Some c \<Longrightarrow> hardCut (shredditCommentText el) 2000 (comment_text c)"
  using truncateText_hardCut [of 2000 "shredditCommentText el"]
  by (auto simp: extractShredditComment_def Let_def split: if_splits)

lemma reddit_single_ok:
  "RedditAdapter_extractSingleComment fid el d = Some c \<Longrightarrow> stored_ok c"
  by (auto simp: RedditAdapter_extractSingleComment_def Let_def stored_okI
        or_default_nonempty split: if_splits)

lemma reddit_single_cut:
  "RedditAdapter_extractSingleComment fid el d = Some c \<Longrightarrow>
   hardCut (getTextContent (queryFirstWithin el REDDIT_commentText)) 2000 (comment_text c)"
  using truncateText_hardCut [of 2000 "getTextContent (queryFirstWithin el REDDIT_commentText)"]
  by (auto simp: RedditAdapter_extractSingleComment_def Let_def split: if_splits)

lemma reddit_comments_ok: "list_all stored_ok (RedditAdapter_extractComments genId doc)"
  unfolding RedditAdapter_extractComments_def Let_def
  by (auto intro!: list_all_map_filter dest: shreddit_ok reddit_single_ok)

lemma reddit_comments_cut:
  "list_all (cutFrom (RedditAdapter_candidateTexts doc)) (RedditAdapter_extractComments genId doc)"
proof (cases "length (querySelectorAll doc ''shreddit-comment'') > 0")
  case True
  have "list_all (cutFrom (map shredditCommentText (querySelectorAll doc ''shreddit-comment'')))
          (List.map_filter (\<lambda>(i, element). extractShredditComment (genId i) element)
             (enumerate 0 (take MAX_COMMENTS (querySelectorAll doc ''shreddit-comment''))))"
  proof (rule list_all_map_filter)
    fix x c
    assume x: "x \<in> set (enumerate 0 (take MAX_COMMENTS (querySelectorAll doc ''shreddit-comment'')))"
      and c: "(case x of (i, element) \<Rightarrow> extractShredditComment (genId i) element) = Some c"
    obtain i el where ie: "x = (i, el)" by (cases x)
    from x ie have "el \<in> set (querySelectorAll doc ''shreddit-comment'')"
      by (auto dest: in_enumerate_take)
    moreover from c ie have "hardCut (shredditCommentText el) 2000 (comment_text c)"
      by (auto dest: shreddit_cut)
    ultimately show "cutFrom (map shredditCommentText (querySelectorAll doc ''shreddit-comment'')) c"
      by (auto simp: cutFrom_def list_ex_iff)
  qed
  with True show ?thesis
    by (simp add: RedditAdapter_candidateTexts_def RedditAdapter_extractComments_def Let_def)
next
  case False
  have "list_all (cutFrom (map (\<lambda>element. getTextContent (queryFirstWithin element REDDIT_commentText))
                            (queryAll doc REDDIT_commentContainer)))
          (List.map_filter (\<lambda>(i, element). RedditAdapter_extractSingleComment (genId i) element 0)
             (enumerate 0 (take MAX_COMMENTS (queryAll doc REDDIT_commentContainer))))"
  proof (rule list_all_map_filter)
    fix x c
    assume x: "x \<in> set (enumerate 0 (take MAX_COMMENTS (queryAll doc REDDIT_commentContainer)))"
      and c: "(case x of (i, element) \<Rightarrow> RedditAdapter_extractSingleComment (genId i) element 0) = Some c"
    obtain i el where ie: "x = (i, el)" by (cases x)
    from x ie have "el \<in> set (queryAll doc REDDIT_commentContainer)"
      by (auto dest: in_enumerate_take)
    moreover from c ie
    have "hardCut (getTextContent (queryFirstWithin el REDDIT_commentText)) 2000 (comment_text c)"
      by (auto dest: reddit_single_cut)
    ultimately show "cutFrom (map (\<lambda>element. getTextContent (queryFirstWithin element REDDIT_commentText))
                              (queryAll doc REDDIT_commentContainer)) c"
      by (auto simp: cutFrom_def list_ex_iff)
  qed
  with False show ?thesis
    by (simp add: RedditAdapter_candidateTexts_def RedditAdapter_extractComments_def Let_def)
qed

subsection \<open>Facebook\<close>

lemma facebook_single_ok:
  "FacebookAdapter_extractSingleComment isEmoji fid el = Some c \<Longrightarrow> stored_ok c"
  by (auto simp: FacebookAdapter_extractSingleComment_def Let_def stored_okI
        or_default_nonempty split: if_splits)

lemma facebook_single_cut:
  "FacebookAdapter_extractSingleComment isEmoji fid el = Some c \<Longrightarrow>
   hardCut (facebookCommentText isEmoji el) 2000 (comment_text c)"
  using truncateText_hardCut [of 2000 "facebookCommentText isEmoji el"]
  by (auto simp: FacebookAdapter_extractSingleComment_def Let_def split: if_splits)

lemma facebook_comments_ok:
  "list_all stored_ok (FacebookAdapter_extractComments isEmoji genId doc)"
  unfolding FacebookAdapter_extractComments_def
  by (auto intro!: list_all_map_filter dest: facebook_single_ok)

lemma facebook_comments_cut:
  "list_all (cutFrom (FacebookAdapter_candidateTexts isEmoji doc))
     (FacebookAdapter_extractComments isEmoji genId doc)"
  unfolding FacebookAdapter_extractComments_def FacebookAdapter_candidateTexts_def
proof (rule list_all_map_filter)
  fix x c
  assume x: "x \<in> set (enumerate 0 (take MAX_COMMENTS (findCommentContainers doc)))"
    and c: "(case x of (i, container) \<Rightarrow>
               FacebookAdapter_extractSingleComment isEmoji (genId i) container) = Some c"
  obtain i el where ie: "x = (i, el)" by (cases x)
  from x ie have "el \<in> set (findCommentContainers doc)"
    by (auto dest: in_enumerate_take)
  moreover from c ie have "hardCut (facebookCommentText isEmoji el) 2000 (comment_text c)"
    by (auto dest: facebook_single_cut)
  ultimately show "cutFrom (map (facebookCommentText isEmoji) (findCommentContainers doc)) c"
    by (auto simp: cutFrom_def list_ex_iff)
qed

subsection \<open>Twitter\<close>

lemma extractTwitterUsername_None: "extractTwitterUsername None = ''Unknown''"
  by (simp add: extractTwitterUsername_def)

lemma extractTwitterUsername_Some: "take 1 (extractTwitterUsername (Some el)) = ''@''"
  by (auto simp: extractTwitterUsername_def Let_def
        split: option.splits list.splits char.splits bool.splits)

lemma extractTwitterUsername_nonempty: "extractTwitterUsername el \<noteq> []"
proof (cases el)
  case None
  then show ?thesis by (simp add: extractTwitterUsername_None)
next
  case (Some a)
  have "take 1 (extractTwitterUsername (Some a)) \<noteq> []"
    by (simp only: extractTwitterUsername_Some) simp
  then show ?thesis using Some by auto
qed

lemma twitter_loop_ok:
  "list_all stored_ok acc \<Longrightarrow>
   list_all stored_ok (extractReplies_loop genId mid i tweets found n acc)"
proof (induction tweets arbitrary: i found n acc)
  case Nil
  then show ?case by simp
next
  case (Cons tweet rest)
  then show ?case
    by (auto simp: Let_def stored_okI extractTwitterUsername_nonempty)
qed

lemma twitter_loop_cut:
  "list_all (cutFrom raws) acc \<Longrightarrow>
   set (map (\<lambda>tweet. getTextContent (querySelector tweet tweetTextSelector)) tweets) \<subseteq> set raws \<Longrightarrow>
   list_all (cutFrom raws) (extractReplies_loop genId mid i tweets found n acc)"
proof (induction tweets arbitrary: i found n acc)
  case Nil
  then show ?case by simp
next
  case (Cons tweet rest)
  from Cons.prems(2)
  have here: "getTextContent (querySelector tweet tweetTextSelector) \<in> set raws"
    and later: "set (map (\<lambda>tweet. getTextContent (querySelector tweet tweetTextSelector)) rest)
                  \<subseteq> set raws"
    by auto
  show ?case
    using Cons.IH [OF _ later] Cons.prems(1) cutFromI [OF here]
    by (simp add: Let_def)
qed

lemma twitter_replies_ok: "list_all stored_ok (extractReplies genId page)"
  by (simp add: extractReplies_def Let_def twitter_loop_ok)

lemma twitter_replies_cut:
  "list_all (cutFrom (TwitterAdapter_candidateTexts page)) (extractReplies genId page)"
  unfolding extractReplies_def Let_def TwitterAdapter_candidateTexts_def
  by (rule twitter_loop_cut) simp_all

subsection \<open>The three adapters\<close>

lemma adapter_comments_ok:
  assumes "RedditAdapter_extractThreadContext ept epb genId page = Some ctx
     \<or> TwitterAdapter_extractThreadContext emt genId page = Some ctx
     \<or> FacebookAdapter_extractThreadContext efb isEmoji genId page = Some ctx"
  shows "list_all stored_ok (comments ctx)"
  using assms reddit_comments_ok [of genId "document page"] twitter_replies_ok [of genId page]
    facebook_comments_ok [of isEmoji genId "document page"]
  by (auto simp: RedditAdapter_extractThreadContext_def TwitterAdapter_extractThreadContext_def
        FacebookAdapter_extractThreadContext_def Let_def split: if_splits prod.splits)

text \<open>The threshold of \<open>truncateForPrompt\<close>: \<open>90 * 0.7\<close> is a binary64 number
  just below 63, and \<open>500 * 0.7\<close> is 350.\<close>

lemma pastSeventyPercent_examples:
  "pastSeventyPercent 63 90"
  "\<not> pastSeventyPercent 350 500"
  "pastSeventyPercent 351 500"
  by (simp_all add: pastSeventyPercent_def SEVENTY_PERCENT_def roundToDouble_def bitLength.simps
        Let_def)

text \<open>
  Claim C4, as stated: every text field an adapter stores is capped, and a text over
  the cap is cut at the last sentence or line boundary when that boundary lies past 70%
  of the cap. The adapters call \<open>truncateText\<close>, which never looks for a boundary.
  A Reddit title of 601 code units has its last full stop at position 400 of the
  first 500, past 70% of the cap of 500; the stored title keeps 96 code units after that
  full stop and ends in three dots. \<open>truncateForPrompt\<close>, which the prompt builder
  applies later, is the function that cuts this text after the full stop.
\<close>

theorem adapter_truncation_ignores_boundary:
  "length longTitle = 601
   \<and> lastIndexOf (take 500 longTitle) CHR ''.'' = 400
   \<and> pastSeventyPercent 400 500
   \<and> map_option postTitle
        (RedditAdapter_extractThreadContext (\<lambda>p. longTitle) (\<lambda>p. []) (\<lambda>i. []) redditPage)
      = Some (replicate 400 CHR ''a'' @ ''.'' @ replicate 96 CHR ''b'' @ ''...'')
   \<and> truncateForPrompt longTitle 500
      = replicate 400 CHR ''a'' @ ''.'' @ [char_of (10 :: nat)] @ ''[Content truncated]''"
proof -
  have len: "length longTitle = 601" by (simp add: longTitle_def)
  have period: "lastIndexOf (take 500 longTitle) CHR ''.'' = 400" by code_simp
  have newline: "lastIndexOf (take 500 longTitle) (char_of (10 :: nat)) = - 1" by code_simp
  have past: "pastSeventyPercent 400 500"
    by (simp add: pastSeventyPercent_def SEVENTY_PERCENT_def roundToDouble_def bitLength.simps
          Let_def)
  have stored: "map_option postTitle
        (RedditAdapter_extractThreadContext (\<lambda>p. longTitle) (\<lambda>p. []) (\<lambda>i. []) redditPage)
      = Some (replicate 400 CHR ''a'' @ ''.'' @ replicate 96 CHR ''b'' @ ''...'')"
    by code_simp
  have cut: "slice0 (take 500 longTitle) 401 = replicate 400 CHR ''a'' @ ''.''" by code_simp
  have prompt: "truncateForPrompt longTitle 500
      = replicate 400 CHR ''a'' @ ''.'' @ [char_of (10 :: nat)] @ ''[Content truncated]''"
    unfolding truncateForPrompt_def Let_def
    by (simp only: len period newline) (simp add: past cut)
  from len period past stored prompt show ?thesis by simp
qed

text \<open>
  Claim C4, amended: every text field an adapter stores (post title, post body, each
  comment text) is capped at its fixed maximum length (500, 10000 and 2000 code units).
  A text within the cap is stored as it is; a longer text is cut to its first
  \<open>maxLength - 3\<close> code units and three dots are appended, wherever the cut falls.
  For a comment the text in question is the one the adapter found for the element
  that the comment is made of, one of the candidate elements of the page, and the same
  holds for the comments of the shared helper \<open>extractCommentsFromElements\<close>.
  Twitter and Facebook contexts have an empty title.
\<close>

theorem adapter_text_fields_capped:
  "(RedditAdapter_extractThreadContext ept epb genId page = Some ctx \<longrightarrow>
      hardCut (ept page) 500 (postTitle ctx) \<and> hardCut (epb page) 10000 (postBody ctx)
      \<and> list_all (cutFrom (RedditAdapter_candidateTexts (document page))) (comments ctx))
   \<and> (TwitterAdapter_extractThreadContext emt genId page = Some ctx \<longrightarrow>
      postTitle ctx = [] \<and> hardCut (fst (emt page)) 10000 (postBody ctx)
      \<and> list_all (cutFrom (TwitterAdapter_candidateTexts page)) (comments ctx))
   \<and> (FacebookAdapter_extractThreadContext efb isEmoji genId page = Some ctx \<longrightarrow>
      postTitle ctx = [] \<and> hardCut (efb page) 10000 (postBody ctx)
      \<and> list_all (cutFrom (FacebookAdapter_candidateTexts isEmoji (document page))) (comments ctx))
   \<and> (RedditAdapter_extractThreadContext ept epb genId page = Some ctx
        \<or> TwitterAdapter_extractThreadContext emt genId page = Some ctx
        \<or> FacebookAdapter_extractThreadContext efb isEmoji genId page = Some ctx \<longrightarrow>
      length (postTitle ctx) \<le> 500 \<and> length (postBody ctx) \<le> 10000
      \<and> list_all (\<lambda>c. length (comment_text c) \<le> 2000) (comments ctx))
   \<and> list_all (cutFrom (map (\<lambda>element. getTextContent (queryFirstWithin element textSelector))
                          elements))
        (extractCommentsFromElements genId elements textSelector authorSelector maxComments)
   \<and> list_all (\<lambda>c. length (comment_text c) \<le> 2000)
        (extractCommentsFromElements genId elements textSelector authorSelector maxComments)
   \<and> (extractShredditComment freshId element = Some c \<longrightarrow>
        hardCut (shredditCommentText element) 2000 (comment_text c))
   \<and> (RedditAdapter_extractSingleComment freshId element d = Some c \<longrightarrow>
        hardCut (getTextContent (queryFirstWithin element REDDIT_commentText)) 2000
          (comment_text c))
   \<and> (FacebookAdapter_extractSingleComment isEmoji freshId element = Some c \<longrightarrow>
        hardCut (facebookCommentText isEmoji element) 2000 (comment_text c))"
proof -
  have R: "hardCut (ept page) 500 (postTitle ctx) \<and> hardCut (epb page) 10000 (postBody ctx)
           \<and> list_all (cutFrom (RedditAdapter_candidateTexts (document page))) (comments ctx)
           \<and> length (postTitle ctx) \<le> 500 \<and> length (postBody ctx) \<le> 10000"
    if "RedditAdapter_extractThreadContext ept epb genId page = Some ctx"
    using that truncateText_hardCut [of 500 "ept page"] truncateText_hardCut [of 10000 "epb page"]
      length_truncateText [of 500 "ept page"] length_truncateText [of 10000 "epb page"]
      reddit_comments_cut [of "document page" genId]
    by (auto simp: RedditAdapter_extractThreadContext_def Let_def MAX_POST_TITLE_LENGTH_def
          MAX_POST_BODY_LENGTH_def split: if_splits)
  have T: "postTitle ctx = [] \<and> hardCut (fst (emt page)) 10000 (postBody ctx)
           \<and> list_all (cutFrom (TwitterAdapter_candidateTexts page)) (comments ctx)
           \<and> length (postTitle ctx) \<le> 500 \<and> length (postBody ctx) \<le> 10000"
    if "TwitterAdapter_extractThreadContext emt genId page = Some ctx"
    using that truncateText_hardCut [of 10000 "fst (emt page)"]
      length_truncateText [of 10000 "fst (emt page)"] twitter_replies_cut [of page genId]
    by (auto simp: TwitterAdapter_extractThreadContext_def Let_def
          MAX_POST_BODY_LENGTH_def split: if_splits prod.splits)
  have F: "postTitle ctx = [] \<and> hardCut (efb page) 10000 (postBody ctx)
           \<and> list_all (cutFrom (FacebookAdapter_candidateTexts isEmoji (document page))) (comments ctx)
           \<and> length (postTitle ctx) \<le> 500 \<and> length (postBody ctx) \<le> 10000"
    if "FacebookAdapter_extractThreadContext efb isEmoji genId page = Some ctx"
    using that truncateText_hardCut [of 10000 "efb page"]
      length_truncateText [of 10000 "efb page"]
      facebook_comments_cut [of isEmoji "document page" genId]
    by (auto simp: FacebookAdapter_extractThreadContext_def Let_def
          MAX_POST_BODY_LENGTH_def split: if_splits)
  have weaken: "list_all stored_ok cs \<Longrightarrow> list_all (\<lambda>c. length (comment_text c) \<le> 2000) cs" for cs
    by (simp add: list_all_iff stored_ok_def)
  have C: "list_all (\<lambda>c. length (comment_text c) \<le> 2000) (comments ctx)"
    if "RedditAdapter_extractThreadContext ept epb genId page = Some ctx
        \<or> TwitterAdapter_extractThreadContext emt genId page = Some ctx
        \<or> FacebookAdapter_extractThreadContext efb isEmoji genId page = Some ctx"
    using adapter_comments_ok [OF that] by (rule weaken)
  have B: "list_all (\<lambda>c. length (comment_text c) \<le> 2000)
        (extractCommentsFromElements genId elements textSelector authorSelector maxComments)"
    using base_comments_ok by (rule weaken)
  from R T F C B base_comments_cut [of textSelector elements genId authorSelector maxComments]
    shreddit_cut [of freshId element c] reddit_single_cut [of freshId element d c]
    facebook_single_cut [of isEmoji freshId element c]
  show ?thesis by blast
qed

lemma redditPage_candidateTexts:
  "RedditAdapter_candidateTexts (document redditPage) = [''Nice post'']"
  by code_simp

lemma longCommentEl_text:
  "getTextContent (queryFirstWithin longCommentEl REDDIT_commentText) = replicate 2005 CHR ''c''"
  by code_simp

theorem adapter_text_fields_capped_witness:
  "map_option postTitle
     (RedditAdapter_extractThreadContext (\<lambda>p. longTitle) (\<lambda>p. []) (\<lambda>i. []) redditPage)
     = Some (take 497 longTitle @ ''...'')
   \<and> map_option (\<lambda>ctx. length (postTitle ctx))
     (RedditAdapter_extractThreadContext (\<lambda>p. longTitle) (\<lambda>p. []) (\<lambda>i. []) redditPage)
     = Some 500
   \<and> map_option (\<lambda>ctx. list_all (\<lambda>c. comment_text c = ''Nice post'') (comments ctx))
     (RedditAdapter_extractThreadContext (\<lambda>p. longTitle) (\<lambda>p. []) (\<lambda>i. []) redditPage)
     = Some True
   \<and> map_option comment_text (RedditAdapter_extractSingleComment ''c1'' longCommentEl 0)
     = Some (replicate 1997 CHR ''c'' @ ''...'')"
proof -
  obtain c where c: "RedditAdapter_extractSingleComment ''c1'' longCommentEl 0 = Some c"
    by (simp add: RedditAdapter_extractSingleComment_def Let_def longCommentEl_text
          MAX_COMMENT_DEPTH_def)
  from adapter_text_fields_capped
         [where freshId = "''c1''" and element = longCommentEl and c = c and d = 0] c
  have "hardCut (replicate 2005 CHR ''c'') 2000 (comment_text c)"
    by (simp add: longCommentEl_text)
  then have "comment_text c = replicate 1997 CHR ''c'' @ ''...''"
    by (simp add: hardCut_def)
  with c have long: "map_option comment_text (RedditAdapter_extractSingleComment ''c1'' longCommentEl 0)
     = Some (replicate 1997 CHR ''c'' @ ''...'')"
    by simp
  obtain ctx where ctx:
    "RedditAdapter_extractThreadContext (\<lambda>p. longTitle) (\<lambda>p. []) (\<lambda>i. []) redditPage = Some ctx"
    by (simp add: RedditAdapter_extractThreadContext_def Let_def longTitle_def)
  have len: "length longTitle = 601" by (simp add: longTitle_def)
  from adapter_text_fields_capped
         [of "\<lambda>p. longTitle" "\<lambda>p. []" "\<lambda>i. []" redditPage ctx] ctx
  have title: "hardCut longTitle 500 (postTitle ctx)"
    and texts: "list_all (cutFrom (RedditAdapter_candidateTexts (document redditPage))) (comments ctx)"
    by simp_all
  from title have "postTitle ctx = take 497 longTitle @ ''...''"
    by (simp add: hardCut_def len)
  moreover from texts have "list_all (\<lambda>c. comment_text c = ''Nice post'') (comments ctx)"
    by (simp add: redditPage_candidateTexts cutFrom_def hardCut_def list_all_iff)
  ultimately show ?thesis using ctx len long by simp
qed

subsection \<open>Text and author of a comment\<close>

text \<open>
  Every comment that one of the three adapters (or the shared helper
  \<open>extractCommentsFromElements\<close>) places in a thread context has a text and an author
  that are not the empty string. A candidate whose text is the empty string is skipped.
  A missing author becomes \<open>[deleted]\<close> on Reddit, \<open>Facebook User\<close> on Facebook,
  \<open>Anonymous\<close> in the shared helper, and on Twitter \<open>Unknown\<close> when the tweet has
  no author link; with an author link the Twitter author starts with \<open>@\<close>.
\<close>

lemma adapter_comments_nonempty:
  "(RedditAdapter_extractThreadContext ept epb genId page = Some ctx
      \<or> TwitterAdapter_extractThreadContext emt genId page = Some ctx
      \<or> FacebookAdapter_extractThreadContext efb isEmoji genId page = Some ctx \<longrightarrow>
      list_all (\<lambda>c. comment_text c \<noteq> [] \<and> author c \<noteq> []) (comments ctx))
   \<and> list_all (\<lambda>c. comment_text c \<noteq> [] \<and> author c \<noteq> [])
        (extractCommentsFromElements genId elements textSelector authorSelector maxComments)
   \<and> (getTextContent (queryFirstWithin element textSelector) = [] \<longrightarrow>
        extractCommentsFromElements genId [element] textSelector authorSelector maxComments = [])
   \<and> (RedditAdapter_extractSingleComment freshId element d = Some c
        \<and> getTextContent (queryFirstWithin element REDDIT_commentAuthor) = [] \<longrightarrow>
        author c = ''[deleted]'')
   \<and> (getTextContent (queryFirstWithin element REDDIT_commentText) = [] \<longrightarrow>
        RedditAdapter_extractSingleComment freshId element d = None)
   \<and> (extractShredditComment freshId element = Some c
        \<and> js_or (getAttribute element ''author'') None = None \<longrightarrow>
        author c = ''[deleted]'')
   \<and> (FacebookAdapter_extractSingleComment isEmoji freshId element = Some c
        \<and> getTextContent (queryFirstWithin element FACEBOOK_commentAuthor) = [] \<longrightarrow>
        author c = ''Facebook User'')
   \<and> (getTextContent (queryFirstWithin element authorSelector) = [] \<longrightarrow>
        list_all (\<lambda>c. author c = ''Anonymous'')
          (extractCommentsFromElements genId [element] textSelector authorSelector maxComments))
   \<and> extractTwitterUsername None = ''Unknown''
   \<and> take 1 (extractTwitterUsername (Some authorEl)) = ''@''"
proof -
  have weaken: "list_all stored_ok cs \<Longrightarrow>
      list_all (\<lambda>c. comment_text c \<noteq> [] \<and> author c \<noteq> []) cs" for cs
    by (simp add: list_all_iff stored_ok_def)
  have A: "list_all (\<lambda>c. comment_text c \<noteq> [] \<and> author c \<noteq> []) (comments ctx)"
    if "RedditAdapter_extractThreadContext ept epb genId page = Some ctx
        \<or> TwitterAdapter_extractThreadContext emt genId page = Some ctx
        \<or> FacebookAdapter_extractThreadContext efb isEmoji genId page = Some ctx"
    using adapter_comments_ok [OF that] by (rule weaken)
  have B: "list_all (\<lambda>c. comment_text c \<noteq> [] \<and> author c \<noteq> [])
        (extractCommentsFromElements genId elements textSelector authorSelector maxComments)"
    using base_comments_ok by (rule weaken)
  have B0: "extractCommentsFromElements genId [element] textSelector authorSelector maxComments = []"
    if "getTextContent (queryFirstWithin element textSelector) = []"
    using that
    by (cases maxComments)
       (simp_all add: extractCommentsFromElements_def List.map_filter_simps Let_def)
  have R: "author c = ''[deleted]''"
    if "RedditAdapter_extractSingleComment freshId element d = Some c"
      and "getTextContent (queryFirstWithin element REDDIT_commentAuthor) = []"
    using that
    by (auto simp: RedditAdapter_extractSingleComment_def Let_def or_default_def
          split: if_splits)
  have R0: "RedditAdapter_extractSingleComment freshId element d = None"
    if "getTextContent (queryFirstWithin element REDDIT_commentText) = []"
    using that by (simp add: RedditAdapter_extractSingleComment_def Let_def)
  have missing: "or_default a dflt = dflt" if "js_or a None = None" for a dflt
    using that by (auto simp: or_default_def js_or_def split: option.splits list.splits)
  have S: "author c = ''[deleted]''"
    if "extractShredditComment freshId element = Some c"
      and "js_or (getAttribute element ''author'') None = None"
    using that(1) missing [OF that(2), of "''[deleted]''"]
    by (simp add: extractShredditComment_def Let_def split: if_splits) auto
  have F: "author c = ''Facebook User''"
    if "FacebookAdapter_extractSingleComment isEmoji freshId element = Some c"
      and "getTextContent (queryFirstWithin element FACEBOOK_commentAuthor) = []"
    using that
    by (auto simp: FacebookAdapter_extractSingleComment_def Let_def or_default_def
          split: if_splits)
  have N: "list_all (\<lambda>c. author c = ''Anonymous'')
          (extractCommentsFromElements genId [element] textSelector authorSelector maxComments)"
    if "getTextContent (queryFirstWithin element authorSelector) = []"
    using that
    by (cases maxComments)
       (simp_all add: extractCommentsFromElements_def List.map_filter_simps Let_def
          or_default_def)
  from A B B0 R R0 S F N extractTwitterUsername_None extractTwitterUsername_Some
  show ?thesis by blast
qed

text \<open>The replies of the example Twitter page: the second tweet has no author link, and
  its author is \<open>Unknown\<close>.\<close>

lemma twitter_missing_author_is_Unknown:
  "map author (extractReplies (\<lambda>i. []) twitterPage) = [''@bob'', ''Unknown'']"
  by code_simp

text \<open>
  Claim C10: every comment that an adapter places in a thread context has a non-empty
  text and a non-empty author, so that the comments check of the validation gate is
  never satisfied by comments without content. Text and author are never the empty
  string (lemma \<open>adapter_comments_nonempty\<close>), but the Reddit adapter emits comments
  whose text is white space only: \<open>extractShredditComment\<close> takes the attribute
  \<open>comment-body\<close> as it is, without the trimming that \<open>getTextContent\<close> does on
  the other paths, and it joins the texts of paragraphs with line feeds even when all
  of them are empty. At the failing input, a page whose post title is one space and
  whose two comments are of these two kinds, the adapter returns a context with the
  comment texts of one space and of one line feed; title, body and both comment texts
  are empty after trimming, and the context passes the validation gate, which it does
  not without the two comments.
\<close>

theorem reddit_blank_comments_pass_gate:
  "map_option (\<lambda>ctx. map comment_text (comments ctx))
     (RedditAdapter_extractThreadContext shredditPostTitle (\<lambda>p. []) (\<lambda>i. []) blankRedditPage)
     = Some ['' '', [char_of (10 :: nat)]]
   \<and> map_option (\<lambda>ctx. (trim (postTitle ctx), trim (postBody ctx),
                        map (\<lambda>c. trim (comment_text c)) (comments ctx)))
     (RedditAdapter_extractThreadContext shredditPostTitle (\<lambda>p. []) (\<lambda>i. []) blankRedditPage)
     = Some ([], [], [[], []])
   \<and> map_option isValidContext
     (RedditAdapter_extractThreadContext shredditPostTitle (\<lambda>p. []) (\<lambda>i. []) blankRedditPage)
     = Some True
   \<and> map_option (\<lambda>ctx. isValidContext (ctx\<lparr>comments := []\<rparr>))
     (RedditAdapter_extractThreadContext shredditPostTitle (\<lambda>p. []) (\<lambda>i. []) blankRedditPage)
     = Some False"
  by code_simp

section \<open>The validation gate and the text inserter\<close>

lemma isValidContext_iff:
  "isValidContext ctx \<longleftrightarrow>
     url ctx \<noteq> [] \<and>
     (trim (postTitle ctx) \<noteq> [] \<or> trim (postBody ctx) \<noteq> [] \<or> comments ctx \<noteq> []) \<and>
     platform ctx \<in> {''reddit'', ''twitter'', ''facebook''}"
  by (auto simp: isValidContext_def validPlatforms_def Let_def)

lemma trim_Nil: "trim [] = []"
  by (simp add: trim_def)

text \<open>
  Claim C6: the validation gate of the thread extractor turns a context that the
  adapter returned into null when its url is empty (whatever its title, body and
  comments), when its url is not empty but title and body are empty and there is no
  comment, and when its platform is none of reddit, twitter, facebook. A context that
  passes the three checks (a url, some content after trimming, a known platform) is
  returned unchanged.
\<close>

theorem validation_gate:
  assumes "extractThreadContext adapter page = Inr (Some ctx)"
  shows "(url ctx = [] \<longrightarrow> extractWithAdapter adapter page = None)
    \<and> (url ctx \<noteq> [] \<and> postTitle ctx = [] \<and> postBody ctx = [] \<and> comments ctx = []
         \<longrightarrow> extractWithAdapter adapter page = None)
    \<and> (platform ctx \<notin> {''reddit'', ''twitter'', ''facebook''}
         \<longrightarrow> extractWithAdapter adapter page = None)
    \<and> (url ctx \<noteq> []
         \<and> (trim (postTitle ctx) \<noteq> [] \<or> trim (postBody ctx) \<noteq> [] \<or> comments ctx \<noteq> [])
         \<and> platform ctx \<in> {''reddit'', ''twitter'', ''facebook''}
         \<longrightarrow> extractWithAdapter adapter page = Some ctx)"
  using assms by (simp add: extractWithAdapter_def isValidContext_iff trim_Nil)

theorem validation_gate_witness:
  "extractWithAdapter (adapterReturning contextWithoutUrl) () = None
   \<and> extractWithAdapter (adapterReturning (contextWithoutUrl\<lparr>url := ''https://x.com/a/status/1''\<rparr>)) ()
       = Some (contextWithoutUrl\<lparr>url := ''https://x.com/a/status/1''\<rparr>)
   \<and> extractWithAdapter
         (adapterReturning (contextWithoutUrl\<lparr>url := ''https://x.com/a/status/1'',
            postTitle := [], postBody := [], comments := []\<rparr>)) () = None
   \<and> extractWithAdapter
         (adapterReturning (contextWithoutUrl\<lparr>url := ''https://x.com/a/status/1'',
            platform := ''linkedin''\<rparr>)) () = None"
  using validation_gate [of "adapterReturning contextWithoutUrl" "()" contextWithoutUrl]
    validation_gate [of "adapterReturning (contextWithoutUrl\<lparr>url := ''https://x.com/a/status/1''\<rparr>)"
      "()" "contextWithoutUrl\<lparr>url := ''https://x.com/a/status/1''\<rparr>"]
    validation_gate [of "adapterReturning (contextWithoutUrl\<lparr>url := ''https://x.com/a/status/1'',
            postTitle := [], postBody := [], comments := []\<rparr>)"
      "()" "contextWithoutUrl\<lparr>url := ''https://x.com/a/status/1'',
            postTitle := [], postBody := [], comments := []\<rparr>"]
    validation_gate [of "adapterReturning (contextWithoutUrl\<lparr>url := ''https://x.com/a/status/1'',
            platform := ''linkedin''\<rparr>)"
      "()" "contextWithoutUrl\<lparr>url := ''https://x.com/a/status/1'', platform := ''linkedin''\<rparr>"]
  by (simp add: adapterReturning_def contextWithoutUrl_def trim_def isWhiteSpace_def charCode_def)

text \<open>
  Claim C8: when the adapter's \<open>setInputText\<close> throws inside \<open>insertText\<close>, the
  function writes back the text it read before the call, whatever that second write
  does (its own exception is dropped), and then throws the first exception again: the
  caller gets that exception and the page that the restoring write left.
\<close>

theorem insertText_rollback:
  assumes "getInputText adapter input page = Inr originalText"
    and "setInputText adapter input text False page = (Some error, page1)"
  shows "insertText adapter fallbackInsert input text page
           = (Some error, snd (setInputText adapter input originalText False page1))"
  using assms by (simp add: insertText_def insertText_try_def split: prod.splits)

theorem insertText_rollback_witness:
  "insertText throwingAdapter (\<lambda>el t page. (None, page)) () ''boom'' ''draft''
     = (Some ''DOMException'', ''draft'')"
  using insertText_rollback [of throwingAdapter "()" "''draft''" "''draft''" "''boom''"
      "''DOMException''" "''half''" "\<lambda>el t page. (None, page)"]
  by (simp add: throwingAdapter_def)

section \<open>Cache store: lemmas and theorems\<close>

subsection \<open>The number of entries to remove\<close>

lemma bitLength_upper: "n < 2 ^ bitLength n"
proof (induction n rule: bitLength.induct)
  case (1 n)
  show ?case
  proof (cases "n = 0")
    case True
    then show ?thesis by simp
  next
    case False
    with 1 have "n div 2 < 2 ^ bitLength (n div 2)" by simp
    then have "n < 2 * 2 ^ bitLength (n div 2)" by linarith
    with False show ?thesis by (subst bitLength.simps) simp
  qed
qed

lemma bitLength_lower: "0 < n \<Longrightarrow> 2 ^ (bitLength n - 1) \<le> n"
proof (induction n rule: bitLength.induct)
  case (1 n)
  show ?case
  proof (cases "n div 2 = 0")
    case True
    with 1(2) have "n = 1" by linarith
    then show ?thesis by (subst bitLength.simps) (simp add: bitLength.simps)
  next
    case False
    with 1 have ih: "2 ^ (bitLength (n div 2) - 1) \<le> n div 2" by simp
    from False have pos: "0 < bitLength (n div 2)" by (subst bitLength.simps) simp
    have "bitLength n = Suc (bitLength (n div 2))" using 1(2) by (subst bitLength.simps) simp
    then have "(2::nat) ^ (bitLength n - 1) = 2 * 2 ^ (bitLength (n div 2) - 1)"
      using pos by (cases "bitLength (n div 2)") simp_all
    with ih show ?thesis by linarith
  qed
qed

lemma bitLength_le: "n < 2 ^ k \<Longrightarrow> bitLength n \<le> k"
proof (rule ccontr)
  assume a: "n < 2 ^ k" and b: "\<not> bitLength n \<le> k"
  then have "0 < n" by (cases "n = 0") (simp_all add: bitLength.simps)
  from b have "k \<le> bitLength n - 1" by simp
  then have "(2::nat) ^ k \<le> 2 ^ (bitLength n - 1)" by (rule power_increasing) simp
  with bitLength_lower [OF \<open>0 < n\<close>] a show False by linarith
qed

lemma roundToDouble_small: "bitLength p \<le> 53 \<Longrightarrow> roundToDouble p = p"
  by (simp add: roundToDouble_def)

lemma roundToDouble_down:
  "53 < bitLength p \<Longrightarrow> 2 * (p mod 2 ^ (bitLength p - 53)) < 2 ^ (bitLength p - 53) \<Longrightarrow>
   roundToDouble p = (p div 2 ^ (bitLength p - 53)) * 2 ^ (bitLength p - 53)"
  by (simp add: roundToDouble_def Let_def)

lemma roundToDouble_error:
  assumes "53 < bitLength p"
  shows "2 * roundToDouble p \<le> 2 * p + 2 ^ (bitLength p - 53)
       \<and> 2 * p \<le> 2 * roundToDouble p + 2 ^ (bitLength p - 53)"
proof -
  define u :: nat where "u = 2 ^ (bitLength p - 53)"
  define q where "q = p div u"
  define r where "r = p mod u"
  have p: "p = q * u + r" by (simp add: q_def r_def)
  have up: "(q + 1) * u = q * u + u" by (simp add: algebra_simps)
  have ru: "r < u" by (simp add: r_def u_def)
  have f: "roundToDouble p = (if 2 * r > u \<or> (2 * r = u \<and> odd q) then (q + 1) * u else q * u)"
    using assms by (simp add: roundToDouble_def Let_def u_def q_def r_def)
  show ?thesis
    unfolding u_def [symmetric]
    by (cases "2 * r > u \<or> (2 * r = u \<and> odd q)") (use p up f ru in auto)
qed

lemma five_PRUNE_PERCENTAGE: "5 * PRUNE_PERCENTAGE = 2 ^ 54 + 1"
  by (simp add: PRUNE_PERCENTAGE_def)

lemma ceil_units:
  fixes f k :: nat
  assumes "k * 2 ^ 54 < f" and "f \<le> (k + 1) * 2 ^ 54"
  shows "(f + 2 ^ 54 - 1) div 2 ^ 54 = k + 1"
proof (rule div_nat_eqI)
  show "2 ^ 54 * (k + 1) \<le> f + 2 ^ 54 - 1" using assms by (simp add: algebra_simps)
  show "f + 2 ^ 54 - 1 < 2 ^ 54 * Suc (k + 1)" using assms by (simp add: algebra_simps)
qed

lemma ceil_exact: "((k::nat) * 2 ^ 54 + 2 ^ 54 - 1) div 2 ^ 54 = k"
  by (rule div_nat_eqI) (simp_all add: algebra_simps)

text \<open>The binary64 product rounds to the exact fifth for a multiple of five, and stays
  strictly between two integers otherwise: the count is the ceiling of \<open>n / 5\<close>.\<close>

lemma removeCount_eq:
  assumes n: "n < 2 ^ 32"
  shows "removeCount n = (n + 4) div 5"
proof -
  define p where "p = n * PRUNE_PERCENTAGE"
  define k where "k = n div 5"
  define j where "j = n mod 5"
  define b where "b = bitLength p"
  define f where "f = roundToDouble p"
  have nkj: "n = 5 * k + j" and j5: "j < 5" by (simp_all add: k_def j_def)
  have p5: "5 * p = n * 2 ^ 54 + n"
    using five_PRUNE_PERCENTAGE by (simp add: p_def algebra_simps)
  have rc: "removeCount n = (f + 2 ^ 54 - 1) div 2 ^ 54"
    by (simp add: removeCount_def f_def p_def)
  have p_less: "p < 2 ^ 84" using p5 n by simp
  then have b84: "b \<le> 84" unfolding b_def by (rule bitLength_le)
  show ?thesis
  proof (cases "j = 0")
    case True
    then have n5: "n = 5 * k" using nkj by simp
    then have pk: "p = k * 2 ^ 54 + k" using p5 by simp
    have goal: "(n + 4) div 5 = k" using n5 by simp
    show ?thesis
    proof (cases "k = 0")
      case True
      then have "p = 0" using pk by simp
      then have "f = 0" by (simp add: f_def roundToDouble_def bitLength.simps)
      then show ?thesis using rc goal True by simp
    next
      case False
      then have "2 ^ 54 \<le> p" using pk by (cases k) simp_all
      then have "\<not> p < 2 ^ 53" by simp
      moreover have "p < 2 ^ b" unfolding b_def by (rule bitLength_upper)
      ultimately have b53: "53 < b"
        by (metis leI le_less_trans not_less one_le_numeral power_increasing)
      define u :: nat where "u = 2 ^ (b - 53)"
      have bs: "b - 53 = Suc (b - 54)" using b53 by simp
      have u2: "u = 2 * 2 ^ (b - 54)" by (simp add: u_def bs)
      have "k * 2 ^ 54 < 2 ^ b" using \<open>p < 2 ^ b\<close> pk by simp
      also have "(2::nat) ^ b = 2 ^ (b - 54) * 2 ^ 54"
      proof -
        have "b = (b - 54) + 54" using b53 by simp
        then have "(2::nat) ^ b = 2 ^ ((b - 54) + 54)" by simp
        then show ?thesis by (simp only: power_add)
      qed
      finally have ku: "k < 2 ^ (b - 54)" by simp
      have "(2::nat) ^ 54 = 2 ^ (107 - b) * u"
      proof -
        have "54 = (107 - b) + (b - 53)" using b53 b84 by simp
        then have "(2::nat) ^ 54 = 2 ^ ((107 - b) + (b - 53))" by simp
        then show ?thesis by (simp only: power_add u_def)
      qed
      then have pc: "p = (k * 2 ^ (107 - b)) * u + k" using pk by (simp add: algebra_simps)
      have kltu: "k < u" using ku u2 by simp
      have pdiv: "p div u = k * 2 ^ (107 - b)" and pmod: "p mod u = k"
        using kltu by (simp_all add: pc)
      have "f = (p div u) * u"
        unfolding f_def u_def b_def
        by (rule roundToDouble_down) (use b53 pmod ku u2 in \<open>simp_all add: b_def u_def\<close>)
      then have "f = k * 2 ^ 54" using pdiv pc pk by simp
      then show ?thesis using rc goal ceil_exact [of k] by simp
    qed
  next
    case False
    then have j1: "1 \<le> j" by simp
    have goal: "(n + 4) div 5 = k + 1" using nkj j1 j5 by simp
    define kT where "kT = k * 2 ^ 54"
    have p5': "5 * p = 5 * kT + j * 2 ^ 54 + n"
      using p5 nkj by (simp add: kT_def algebra_simps)
    have err: "2 * f \<le> 2 * p + 2 ^ 31 \<and> 2 * p \<le> 2 * f + 2 ^ 31"
    proof (cases "b \<le> 53")
      case True
      then show ?thesis by (simp add: f_def b_def roundToDouble_small)
    next
      case False
      then have b53: "53 < bitLength p" by (simp add: b_def)
      have "b - 53 \<le> 31" using b84 by simp
      then have "(2::nat) ^ (b - 53) \<le> 2 ^ 31" by (rule power_increasing) simp
      with roundToDouble_error [OF b53] show ?thesis by (simp add: f_def b_def)
    qed
    have jT: "2 ^ 54 \<le> j * 2 ^ 54" "j * 2 ^ 54 \<le> 4 * 2 ^ 54"
      using j1 j5 by simp_all
    have lo: "kT < f" using err p5' jT n by simp
    have hi: "f \<le> kT + 2 ^ 54" using err p5' jT n by simp
    have "(f + 2 ^ 54 - 1) div 2 ^ 54 = k + 1"
      by (rule ceil_units) (use lo hi in \<open>simp_all add: kT_def algebra_simps\<close>)
    then show ?thesis using rc goal by simp
  qed
qed

lemma removeCount_le: "n < 2 ^ 32 \<Longrightarrow> removeCount n \<le> n"
  by (simp add: removeCount_eq)

subsection \<open>Reading and removing entries\<close>

text \<open>A greater depth does not change the result of a call that returned.\<close>

lemma fuel_mono_aux:
  "(getCacheEntry fuel sz now k s = Some r \<longrightarrow> getCacheEntry (Suc fuel) sz now k s = Some r)
   \<and> (removeCacheEntry fuel sz now k s = Some s' \<longrightarrow> removeCacheEntry (Suc fuel) sz now k s = Some s')"
proof (induction fuel arbitrary: r s')
  case 0
  then show ?case by simp
next
  case (Suc fuel)
  have IHg: "getCacheEntry fuel sz now k s = Some x \<Longrightarrow> getCacheEntry (Suc fuel) sz now k s = Some x" for x
    using Suc by blast
  have IHr: "removeCacheEntry fuel sz now k s = Some x \<Longrightarrow> removeCacheEntry (Suc fuel) sz now k s = Some x" for x
    using Suc by blast
  show ?case
  proof (intro conjI impI)
    assume a: "getCacheEntry (Suc fuel) sz now k s = Some r"
    show "getCacheEntry (Suc (Suc fuel)) sz now k s = Some r"
    proof (cases "cache s k")
      case None
      with a show ?thesis by (simp del: removeCacheEntry.simps)
    next
      case (Some e)
      show ?thesis
      proof (cases "now > expiresAt e")
        case True
        with a Some obtain s1 where s1: "removeCacheEntry fuel sz now k s = Some s1" and r: "r = (None, s1)"
          by (auto simp del: removeCacheEntry.simps split: option.splits)
        from IHr [OF s1] Some True r show ?thesis
          by (simp del: removeCacheEntry.simps)
      next
        case False
        with a Some show ?thesis by (simp del: removeCacheEntry.simps)
      qed
    qed
  next
    assume a: "removeCacheEntry (Suc fuel) sz now k s = Some s'"
    then obtain x where x: "getCacheEntry fuel sz now k s = Some x"
      by (auto simp del: getCacheEntry.simps split: option.splits)
    from a x IHg [OF x] show "removeCacheEntry (Suc (Suc fuel)) sz now k s = Some s'"
      by (simp del: getCacheEntry.simps)
  qed
qed

lemma getCacheEntry_absent:
  "cache s k = None \<Longrightarrow> getCacheEntry (Suc fuel) sz now k s = Some (None, s)"
  by simp

lemma getCacheEntry_live:
  "cache s k = Some e \<Longrightarrow> \<not> now > expiresAt e \<Longrightarrow>
   getCacheEntry (Suc fuel) sz now k s = Some (Some e, s)"
  by simp

text \<open>An expired entry that is in the store: \<open>getCacheEntry\<close> calls
  \<open>removeCacheEntry\<close>, which calls \<open>getCacheEntry\<close> on the unchanged store before
  it removes anything. No depth of calls suffices.\<close>

lemma expired_diverges:
  assumes "cache s k = Some e" and "now > expiresAt e"
  shows "getCacheEntry fuel sz now k s = None \<and> removeCacheEntry fuel sz now k s = None"
proof (induction fuel)
  case 0
  show ?case by simp
next
  case (Suc fuel)
  then show ?case using assms by simp
qed

text \<open>Removing one key leaves the entries of the other keys alone, and a list of
  removals does not return when one of its keys has an expired entry.\<close>

lemma removeCacheEntry_other:
  assumes "removeCacheEntry fuel sz now k' s = Some s1" and "k \<noteq> k'"
  shows "cache s1 k = cache s k"
proof (cases fuel)
  case 0
  with assms show ?thesis by simp
next
  case (Suc f)
  show ?thesis
  proof (cases "cache s k'")
    case None
    then have "getCacheEntry f sz now k' s = None \<or> getCacheEntry f sz now k' s = Some (None, s)"
      by (cases f) simp_all
    with assms Suc show ?thesis
      by (auto simp: Let_def saveCacheIndex_def simp del: getCacheEntry.simps)
  next
    case (Some e')
    show ?thesis
    proof (cases "now > expiresAt e'")
      case True
      from expired_diverges [OF Some True, of fuel sz] assms(1) show ?thesis by simp
    next
      case False
      with Some have "getCacheEntry f sz now k' s = None \<or> getCacheEntry f sz now k' s = Some (Some e', s)"
        by (cases f) simp_all
      with assms Suc show ?thesis
        by (auto simp: Let_def saveCacheIndex_def simp del: getCacheEntry.simps)
    qed
  qed
qed

lemma removeEntries_expired:
  assumes "k \<in> set ks" and "cache s k = Some e" and "now > expiresAt e"
  shows "removeEntries fuel sz now ks s = None"
  using assms
proof (induction ks arbitrary: s)
  case Nil
  then show ?case by simp
next
  case (Cons k' ks)
  show ?case
  proof (cases "k' = k")
    case True
    with expired_diverges [OF Cons.prems(2,3), of fuel sz] show ?thesis
      by (simp del: removeCacheEntry.simps)
  next
    case False
    show ?thesis
    proof (cases "removeCacheEntry fuel sz now k' s")
      case None
      then show ?thesis by (simp del: removeCacheEntry.simps)
    next
      case (Some s1)
      from removeCacheEntry_other [OF Some] False have "cache s1 k = cache s k" by auto
      with Cons.prems have "cache s1 k = Some e" by simp
      moreover from Cons.prems False have "k \<in> set ks" by simp
      ultimately have "removeEntries fuel sz now ks s1 = None"
        using Cons.IH Cons.prems(3) by blast
      with Some show ?thesis by (simp del: removeCacheEntry.simps)
    qed
  qed
qed

lemma removeCacheEntry_live:
  assumes "allLive now s"
  shows "removeCacheEntry (Suc (Suc fuel)) sz now k s = Some (afterRemove sz now k s)"
proof (cases "cache s k")
  case None
  then show ?thesis by (simp add: afterRemove_def Let_def)
next
  case (Some e)
  with assms have "\<not> now > expiresAt e" by (auto simp: allLive_def)
  with Some show ?thesis by (simp add: afterRemove_def Let_def)
qed

lemma cache_afterRemove: "cache (afterRemove sz now k s) = (cache s)(k := None)"
  by (simp add: afterRemove_def Let_def saveCacheIndex_def)

lemma keys_afterRemove:
  "keys (getCacheIndex now (afterRemove sz now k s)) = filter (\<lambda>x. x \<noteq> k) (keys (getCacheIndex now s))"
  by (simp add: afterRemove_def Let_def saveCacheIndex_def getCacheIndex_def split: option.splits)

lemma allLive_afterRemove: "allLive now s \<Longrightarrow> allLive now (afterRemove sz now k s)"
  by (auto simp: allLive_def cache_afterRemove split: if_splits)

lemma removeEntries_live:
  assumes "allLive now s"
  shows "removeEntries (Suc (Suc fuel)) sz now ks s = Some (foldl (\<lambda>t k. afterRemove sz now k t) s ks)"
  using assms
proof (induction ks arbitrary: s)
  case Nil
  show ?case by simp
next
  case (Cons k ks)
  from Cons.prems have "removeCacheEntry (Suc (Suc fuel)) sz now k s = Some (afterRemove sz now k s)"
    by (rule removeCacheEntry_live)
  moreover have "allLive now (afterRemove sz now k s)"
    using Cons.prems by (rule allLive_afterRemove)
  ultimately show ?case using Cons.IH by (simp del: removeCacheEntry.simps)
qed

lemma cache_foldl_afterRemove:
  "cache (foldl (\<lambda>t k. afterRemove sz now k t) s ks) = (\<lambda>x. if x \<in> set ks then None else cache s x)"
  by (induction ks arbitrary: s) (auto simp: cache_afterRemove fun_eq_iff)

lemma keys_foldl_afterRemove:
  "keys (getCacheIndex now (foldl (\<lambda>t k. afterRemove sz now k t) s ks))
     = filter (\<lambda>x. x \<notin> set ks) (keys (getCacheIndex now s))"
proof (induction ks arbitrary: s)
  case Nil
  show ?case by simp
next
  case (Cons k ks)
  show ?case
    by (simp add: Cons.IH keys_afterRemove)
qed

lemma collectEntries_all:
  assumes "set ks \<subseteq> dom (cache s)"
  shows "map fst (collectEntries sz ks s) = ks"
  using assms
  by (induction ks) (auto simp: collectEntries_def)

lemma sorted_take_le_drop:
  assumes "sorted (map f xs)" and "a \<in> set (take c xs)" and "b \<in> set (drop c xs)"
  shows "f a \<le> f b"
proof -
  have "sorted (map f (take c xs) @ map f (drop c xs))"
    using assms(1) by (simp flip: map_append)
  then show ?thesis using assms(2,3) by (auto simp: sorted_append)
qed

lemma distinct_map_insort_key:
  "distinct (map g (insort_key f x xs)) = (g x \<notin> g ` set xs \<and> distinct (map g xs))"
  by (induction xs) (auto simp: set_insort_key)

lemma distinct_map_sort_key: "distinct (map g (sort_key f xs)) = distinct (map g xs)"
  by (induction xs) (simp_all add: distinct_map_insort_key)

lemma collectEntries_member:
  "(k, c, z) \<in> set (collectEntries sz ks s) \<Longrightarrow>
   \<exists>e. cache s k = Some e \<and> c = createdAt e \<and> z = sz e"
  by (induction ks) (auto simp: collectEntries_def split: option.splits)

lemma pruneCache_live:
  assumes "allLive now s"
  shows "pruneCache (Suc (Suc fuel)) sz now index s =
     Some (let ks = map fst (toRemove (collectEntries sz
                      (keys (case index of Some given \<Rightarrow> given | None \<Rightarrow> getCacheIndex now s)) s));
               s1 = foldl (\<lambda>t k. afterRemove sz now k t) s ks
           in saveCacheIndex ((getCacheIndex now s1)\<lparr>lastPruned := now\<rparr>) s1)"
  unfolding pruneCache_def Let_def
  by (simp only: removeEntries_live [OF assms] option.case)

lemma pruneCache_expired_victim:
  assumes "k \<in> set (map fst (toRemove (collectEntries sz
              (keys (case index of Some given \<Rightarrow> given | None \<Rightarrow> getCacheIndex now s)) s)))"
    and "cache s k = Some e" and "now > expiresAt e"
  shows "pruneCache fuel sz now index s = None"
  unfolding pruneCache_def Let_def
  by (simp only: removeEntries_expired [OF assms] option.case)


lemma hd_sort_key_least:
  assumes "x \<in> set xs" and "\<And>y. y \<in> set xs \<Longrightarrow> y \<noteq> x \<Longrightarrow> f x < f y"
  shows "hd (sort_key f xs) = x"
proof (rule ccontr)
  assume neq: "hd (sort_key f xs) \<noteq> x"
  have ne: "sort_key f xs \<noteq> []" using assms(1) by (metis empty_iff set_empty set_sort)
  then have hd_in: "hd (sort_key f xs) \<in> set xs" by (metis hd_in_set set_sort)
  have "x \<in> set (sort_key f xs)" using assms(1) by simp
  moreover have "sorted (map f (sort_key f xs))" by simp
  ultimately have "f (hd (sort_key f xs)) \<le> f x"
    using ne by (cases "sort_key f xs") auto
  with assms(2) [OF hd_in neq] show False by simp
qed

lemma collectEntries_present:
  "k \<in> set ks \<Longrightarrow> cache s k = Some e \<Longrightarrow>
   (k, createdAt e, sz e) \<in> set (collectEntries sz ks s)"
  by (induction ks) (auto simp: collectEntries_def List.map_filter_simps split: option.splits)

lemma collectEntries_key: "(k, c, z) \<in> set (collectEntries sz ks s) \<Longrightarrow> k \<in> set ks"
  by (induction ks) (auto simp: collectEntries_def List.map_filter_simps split: option.splits)

lemma length_collectEntries: "length (collectEntries sz ks s) \<le> length ks"
  by (induction ks) (auto simp: collectEntries_def List.map_filter_simps split: option.splits)

lemma collectEntries_append:
  "collectEntries sz (xs @ ys) s = collectEntries sz xs s @ collectEntries sz ys s"
  by (simp add: collectEntries_def List.map_filter_def)

lemma collectEntries_keyed:
  assumes "distinct (map k xs)" and "set ys \<subseteq> set xs"
    and "cache s = map_of (map (\<lambda>i. (k i, e i)) xs)"
  shows "collectEntries sz (map k ys) s = map (\<lambda>i. (k i, createdAt (e i), sz (e i))) ys"
proof -
  have d: "distinct (map fst (map (\<lambda>i. (k i, e i)) xs))"
    using assms(1) by (simp add: comp_def)
  have look: "cache s (k i) = Some (e i)" if "i \<in> set xs" for i
    unfolding assms(3) map_of_eq_Some_iff [OF d] using that by auto
  show ?thesis
    using assms(2) by (induction ys) (auto simp: collectEntries_def look)
qed

subsection \<open>Saving entries\<close>

lemma saveCacheEntry_unfold:
  "saveCacheEntry fuel sz now entry s =
     (if sz entry > MAX_ENTRY_SIZE_BYTES then Some (Inl EntryTooLarge)
      else case (if totalSize (updatedIndex sz now entry s) > MAX_STORAGE_BYTES
                 then pruneCache fuel sz now (Some (updatedIndex sz now entry s)) s
                 else Some s) of
             None \<Rightarrow> None
           | Some s1 \<Rightarrow>
               Some (Inr (saveCacheIndex (updatedIndex sz now entry s)
                            (s1\<lparr>cache := (cache s1)(cacheKey entry \<mapsto> entry)\<rparr>))))"
  unfolding saveCacheEntry_def updatedIndex_def Let_def by (rule refl)

lemma saveCacheEntry_plain:
  assumes "sz entry \<le> MAX_ENTRY_SIZE_BYTES"
    and "\<not> totalSize (updatedIndex sz now entry s) > MAX_STORAGE_BYTES"
  shows "saveCacheEntry fuel sz now entry s =
     Some (Inr (saveCacheIndex (updatedIndex sz now entry s)
                  (s\<lparr>cache := (cache s)(cacheKey entry \<mapsto> entry)\<rparr>)))"
  using assms by (simp add: saveCacheEntry_unfold)

lemma saveCacheEntry_evicting:
  assumes "sz entry \<le> MAX_ENTRY_SIZE_BYTES"
    and "totalSize (updatedIndex sz now entry s) > MAX_STORAGE_BYTES"
    and "allLive now s"
  shows "\<exists>s'. saveCacheEntry (Suc (Suc fuel)) sz now entry s = Some (Inr s')
     \<and> cacheIndex s' = Some (updatedIndex sz now entry s)
     \<and> cache s' =
         (\<lambda>x. if x = cacheKey entry then Some entry
              else if x \<in> set (map fst (toRemove (collectEntries sz
                                   (keys (updatedIndex sz now entry s)) s)))
              then None else cache s x)"
  using assms(1,2)
  by (simp add: saveCacheEntry_unfold pruneCache_live [OF assms(3)] Let_def saveCacheIndex_def
        cache_foldl_afterRemove fun_eq_iff)

lemma saveCacheEntry_without_eviction:
  assumes "sz entry \<le> MAX_ENTRY_SIZE_BYTES"
    and "\<not> totalSize (getCacheIndex now s) + int (sz entry) > MAX_STORAGE_BYTES"
    and "set (keys (getCacheIndex now s)) = dom (cache s)"
  shows "\<exists>s' idx'. saveCacheEntry fuel sz now entry s = Some (Inr s')
     \<and> cacheIndex s' = Some idx'
     \<and> set (keys idx') = dom (cache s')
     \<and> cache s' = (cache s)(cacheKey entry \<mapsto> entry)
     \<and> totalSize idx' = totalSize (getCacheIndex now s) + int (sz entry)"
proof -
  have t: "totalSize (updatedIndex sz now entry s) = totalSize (getCacheIndex now s) + int (sz entry)"
    by (simp add: updatedIndex_def Let_def)
  have k: "set (keys (updatedIndex sz now entry s)) = insert (cacheKey entry) (dom (cache s))"
    using assms(3) by (auto simp: updatedIndex_def Let_def)
  from assms(2) t have "\<not> totalSize (updatedIndex sz now entry s) > MAX_STORAGE_BYTES" by simp
  from saveCacheEntry_plain [OF assms(1) this] t k show ?thesis
    by (simp add: saveCacheIndex_def)
qed

subsection \<open>The example stores\<close>

lemma exampleKey_inj:
  assumes "i < 100" and "j < 100" and "exampleKey i = exampleKey j"
  shows "i = j"
proof -
  from assms(3) have "of_char (char_of (65 + i div 10) :: char) = (of_char (char_of (65 + j div 10) :: char) :: nat)"
    and "of_char (char_of (48 + i mod 10) :: char) = (of_char (char_of (48 + j mod 10) :: char) :: nat)"
    by (simp_all add: exampleKey_def)
  then have "(65 + i div 10) mod 256 = (65 + j div 10) mod 256"
    and "(48 + i mod 10) mod 256 = (48 + j mod 10) mod 256"
    by simp_all
  with assms(1,2) have "i div 10 = j div 10" and "i mod 10 = j mod 10" by simp_all
  then show "i = j" by (metis div_mult_mod_eq)
qed

lemma exampleKeys_distinct: "n \<le> 100 \<Longrightarrow> distinct (map exampleKey [0 ..< n])"
  by (auto simp: distinct_map inj_on_def intro: exampleKey_inj)

lemma exampleKey_new: "''new'' \<notin> set (map exampleKey [0 ..< n])"
  by (auto simp: exampleKey_def)

lemma storeOf_live: "allLive 1000 (storeOf n)"
  by (auto simp: allLive_def storeOf_def exampleEntry_def dest!: map_of_SomeD)

lemma storeOf_dom: "dom (cache (storeOf n)) = set (map exampleKey [0 ..< n])"
  by (simp add: storeOf_def dom_map_of_conv_image_fst image_comp del: upt.simps set_upt)

lemma storeOf_entries:
  assumes "n \<le> 100"
  shows "collectEntries (\<lambda>e. 102400) (map exampleKey [0 ..< n] @ [''new'']) (storeOf n)
     = map (\<lambda>i. (exampleKey i, int i, 102400)) [0 ..< n]"
proof -
  have "cache (storeOf n) ''new'' = None"
    using exampleKey_new storeOf_dom by (metis domIff)
  then have new: "collectEntries (\<lambda>e. 102400) [''new''] (storeOf n) = []"
    by (simp add: collectEntries_def)
  have "collectEntries (\<lambda>e. 102400) (map exampleKey [0 ..< n]) (storeOf n)
      = map (\<lambda>i. (exampleKey i, createdAt (exampleEntry i), 102400)) [0 ..< n]"
    by (rule collectEntries_keyed [OF exampleKeys_distinct [OF assms] subset_refl])
       (simp add: storeOf_def)
  then show ?thesis
    by (simp add: collectEntries_append new exampleEntry_def del: upt.simps)
qed

lemma examples_sorted:
  "sort_key (\<lambda>(k, created, size). created) (map (\<lambda>i. (exampleKey i, int i, 102400 :: nat)) [0 ..< n])
     = map (\<lambda>i. (exampleKey i, int i, 102400)) [0 ..< n]"
  by (rule sort_key_id_if_sorted) (simp add: comp_def sorted_map del: upt.simps)

lemma fullStore_victims:
  "map fst (toRemove (collectEntries (\<lambda>e. 102400) (map exampleKey [0 ..< 81] @ [''new''])
                        (storeOf 81)))
     = map exampleKey [0 ..< 17]"
proof -
  have "removeCount 81 = 17" by (simp add: removeCount_eq)
  then show ?thesis
    unfolding storeOf_entries [of 81, simplified] toRemove_def examples_sorted
    by (simp add: take_map comp_def del: upt.simps)
qed

lemma updatedIndex_fullStore:
  "updatedIndex (\<lambda>e. 102400) 1000 newEntry (storeOf 81)
     = \<lparr>keys = map exampleKey [0 ..< 81] @ [''new''], totalSize = 82 * 102400, lastPruned = 0\<rparr>"
  using exampleKey_new [of 81]
  by (simp add: updatedIndex_def getCacheIndex_def storeOf_def newEntry_def exampleEntry_def
        Let_def del: upt.simps)

lemma example_simps:
  "cacheKey (exampleEntry i) = exampleKey i"
  "cache emptyStore = Map.empty"
  "cacheIndex emptyStore = None"
  by (simp_all add: exampleEntry_def emptyStore_def)

text \<open>
  Claim C1: for a key whose stored entry has \<open>expiresAt\<close> before the current time,
  \<open>getCacheEntry\<close> returns null and removes the entry from the store and its key from
  the index; an entry that is not expired is returned unchanged (lemma
  \<open>getCacheEntry_live\<close>). The first part fails in the code: at the failing input,
  a store with one entry that expired one millisecond ago, neither \<open>getCacheEntry\<close>
  nor \<open>removeCacheEntry\<close> returns, whatever the depth of calls allowed.
\<close>

theorem getCacheEntry_expired_never_returns:
  "getCacheEntry fuel estimateSize 1000 ''k1'' expiredStore = None
   \<and> removeCacheEntry fuel estimateSize 1000 ''k1'' expiredStore = None"
  by (rule expired_diverges [where e = "(exampleEntry 1)\<lparr>cacheKey := ''k1'', expiresAt := 999\<rparr>"])
     (simp_all add: expiredStore_def)

text \<open>
  On a store whose index lists exactly the stored keys, each once, and none of whose
  \<open>N\<close> entries is expired, \<open>pruneCache()\<close> returns. It removes
  \<open>ceil(N * 0.2)\<close> entries, which is the ceiling of \<open>N / 5\<close>; every removed
  entry is at least as old by \<open>createdAt\<close> as every entry that stays; the entries
  that stay are unchanged and their number is \<open>N - ceil(N * 0.2)\<close>; the index
  lists the entries that stay. \<open>N\<close> is below \<open>2 ^ 32\<close>, the bound of an array
  length.
\<close>

lemma pruneCache_on_unexpired_store:
  assumes idx: "cacheIndex s = Some idx"
    and dist: "distinct (keys idx)"
    and cons: "set (keys idx) = dom (cache s)"
    and live: "allLive now s"
    and N: "N = length (keys idx)" "N < 2 ^ 32"
    and fuel: "2 \<le> fuel"
  shows "\<exists>s'. pruneCache fuel sz now None s = Some s'
      \<and> card (dom (cache s)) = N
      \<and> removeCount N = (N + 4) div 5
      \<and> dom (cache s') \<subseteq> dom (cache s)
      \<and> card (dom (cache s) - dom (cache s')) = removeCount N
      \<and> card (dom (cache s')) = N - removeCount N
      \<and> (\<forall>r \<in> dom (cache s) - dom (cache s'). \<forall>k \<in> dom (cache s').
            createdAt (the (cache s r)) \<le> createdAt (the (cache s k)))
      \<and> (\<forall>k \<in> dom (cache s'). cache s' k = cache s k)
      \<and> (\<exists>idx'. cacheIndex s' = Some idx' \<and> set (keys idx') = dom (cache s')
            \<and> distinct (keys idx') \<and> lastPruned idx' = now)"
proof -
  obtain f where fuel2: "fuel = Suc (Suc f)"
    using fuel by (metis Suc_le_D numeral_2_eq_2 Suc_le_mono)
  define entries where "entries = collectEntries sz (keys idx) s"
  define srt where "srt = sort_key (\<lambda>(k, created, size). created) entries"
  define c where "c = removeCount N"
  define victims where "victims = map fst (take c srt)"
  define s1 where "s1 = foldl (\<lambda>t k. afterRemove sz now k t) s victims"
  define s' where "s' = saveCacheIndex ((getCacheIndex now s1)\<lparr>lastPruned := now\<rparr>) s1"
  have gi: "getCacheIndex now s = idx" using idx by (simp add: getCacheIndex_def)
  have fst_entries: "map fst entries = keys idx"
    unfolding entries_def by (rule collectEntries_all) (simp add: cons)
  then have len_entries: "length entries = N" using N(1) by (metis length_map)
  have victims_eq: "map fst (toRemove entries) = victims"
    by (simp add: toRemove_def victims_def srt_def c_def len_entries)
  have run: "pruneCache fuel sz now None s = Some s'"
    unfolding fuel2 pruneCache_live [OF live]
    by (simp add: Let_def gi victims_eq s'_def s1_def entries_def [symmetric])
  have cache': "cache s' = (\<lambda>x. if x \<in> set victims then None else cache s x)"
    by (simp add: s'_def s1_def saveCacheIndex_def cache_foldl_afterRemove)
  have keys': "keys (getCacheIndex now s1) = filter (\<lambda>x. x \<notin> set victims) (keys idx)"
    by (simp add: s1_def keys_foldl_afterRemove gi)
  have set_srt: "set (map fst srt) = set (keys idx)"
    using fst_entries by (simp add: srt_def) (metis list.set_map)
  have dist_srt: "distinct (map fst srt)"
    using dist fst_entries by (simp add: srt_def distinct_map_sort_key)
  have len_srt: "length srt = N" by (simp add: srt_def len_entries)
  have cN: "c \<le> N" unfolding c_def using N(2) by (rule removeCount_le)
  have victims_take: "victims = take c (map fst srt)" by (simp add: victims_def take_map)
  have dist_v: "distinct victims" using dist_srt by (simp add: victims_take)
  have len_v: "length victims = c" using cN len_srt by (simp add: victims_def)
  have sub_v: "set victims \<subseteq> dom (cache s)"
    using set_srt cons by (metis set_take_subset victims_take)
  have dom': "dom (cache s') = dom (cache s) - set victims"
    by (auto simp: cache' dom_def)
  have fin: "finite (dom (cache s))" using cons by (metis List.finite_set)
  have cardN: "card (dom (cache s)) = N"
    using cons dist N(1) by (metis distinct_card)
  have removed: "dom (cache s) - dom (cache s') = set victims"
    using sub_v dom' by auto
  have card_v: "card (set victims) = c" using dist_v len_v by (simp add: distinct_card)
  have card': "card (dom (cache s')) = N - c"
    unfolding dom' using fin sub_v card_v cardN by (simp add: card_Diff_subset finite_subset)
  have order: "createdAt (the (cache s r)) \<le> createdAt (the (cache s k))"
    if r: "r \<in> set victims" and k: "k \<in> dom (cache s')" for r k
  proof -
    from r obtain a where a: "a \<in> set (take c srt)" "fst a = r"
      by (auto simp: victims_def)
    from k have "k \<in> set (map fst srt)" "k \<notin> set (take c (map fst srt))"
      using dom' set_srt cons victims_take by auto
    then have "k \<in> set (drop c (map fst srt))"
      by (metis append_take_drop_id set_append Un_iff)
    then obtain b where b: "b \<in> set (drop c srt)" "fst b = k"
      by (auto simp: drop_map)
    have srt_sorted: "sorted (map (\<lambda>(k, created, size). created) srt)"
      by (simp add: srt_def)
    have le: "(\<lambda>(k, created, size). created) a \<le> (\<lambda>(k, created, size). created) b"
      using srt_sorted a(1) b(1) by (rule sorted_take_le_drop)
    have mem: "x \<in> set srt \<Longrightarrow>
        (\<lambda>(k, created, size). created) x = createdAt (the (cache s (fst x)))" for x
    proof -
      assume xin: "x \<in> set srt"
      obtain k0 c0 z0 where x: "x = (k0, c0, z0)" by (rule prod_cases3)
      from xin have "(k0, c0, z0) \<in> set (collectEntries sz (keys idx) s)"
        by (simp add: srt_def entries_def x)
      from collectEntries_member [OF this] show ?thesis by (auto simp: x)
    qed
    have "a \<in> set srt" "b \<in> set srt"
      using a(1) b(1) by (meson in_set_takeD in_set_dropD)+
    with le mem a(2) b(2) show ?thesis by metis
  qed
  have index': "cacheIndex s' = Some ((getCacheIndex now s1)\<lparr>lastPruned := now\<rparr>)"
    by (simp add: s'_def saveCacheIndex_def)
  have keyset': "set (keys ((getCacheIndex now s1)\<lparr>lastPruned := now\<rparr>)) = dom (cache s')"
    using keys' dom' cons by auto
  have distinct': "distinct (keys ((getCacheIndex now s1)\<lparr>lastPruned := now\<rparr>))"
    using keys' dist by simp
  have unchanged: "\<forall>k \<in> dom (cache s'). cache s' k = cache s k"
    by (auto simp: cache' split: if_splits)
  show ?thesis
    apply (rule exI [of _ s'])
    using run cardN removeCount_eq [OF N(2)] dom' removed card_v card' order index' keyset'
      distinct' unchanged
    by (simp add: c_def)
qed

lemma pruneCache_on_unexpired_store_example:
  "\<exists>s'. pruneCache 2 (\<lambda>e. 102400) 1000 None (storeOf 6) = Some s'
     \<and> card (dom (cache s')) = 4
     \<and> card (dom (cache (storeOf 6)) - dom (cache s')) = 2"
proof -
  have idx: "cacheIndex (storeOf 6)
      = Some \<lparr>keys = map exampleKey [0 ..< 6], totalSize = int 6 * 102400, lastPruned = 0\<rparr>"
    by (simp add: storeOf_def)
  have d: "distinct (keys \<lparr>keys = map exampleKey [0 ..< 6], totalSize = int 6 * 102400,
                            lastPruned = 0\<rparr>)"
    using exampleKeys_distinct [of 6] by simp
  have c: "set (keys \<lparr>keys = map exampleKey [0 ..< 6], totalSize = int 6 * 102400,
                       lastPruned = 0\<rparr>) = dom (cache (storeOf 6))"
    using storeOf_dom [of 6] by simp
  have n: "6 = length (keys \<lparr>keys = map exampleKey [0 ..< 6], totalSize = int 6 * 102400,
                       lastPruned = 0\<rparr>)"
    by simp
  from pruneCache_on_unexpired_store [OF idx d c storeOf_live n, of 2 "\<lambda>e. 102400"]
  show ?thesis by auto
qed

text \<open>
  Claim C2: on every set of \<open>N\<close> cache entries, \<open>pruneCache()\<close> removes the
  \<open>ceil(N * 0.2)\<close> entries with the smallest \<open>createdAt\<close> and leaves
  \<open>N - ceil(N * 0.2)\<close>. The code does so when no stored entry is expired (lemma
  \<open>pruneCache_on_unexpired_store\<close>). It fails the claim on a store whose oldest
  entry is expired, the usual state of a cache that needs pruning: \<open>pruneCache\<close>
  reads the entries from the store directly and selects the oldest one for eviction,
  and \<open>removeCacheEntry\<close> on that key starts the endless exchange with
  \<open>getCacheEntry\<close>. Whatever the depth of calls allowed, \<open>pruneCache\<close> does
  not return, and no entry is removed. The failing input is a store of five entries
  whose oldest expired one millisecond ago.
\<close>

theorem pruneCache_expired_never_returns:
  assumes idx: "cacheIndex s = Some idx"
    and k: "k \<in> set (keys idx)" "cache s k = Some e"
    and expired: "now > expiresAt e"
    and oldest: "\<And>k' e'. k' \<in> set (keys idx) \<Longrightarrow> k' \<noteq> k \<Longrightarrow> cache s k' = Some e'
                   \<Longrightarrow> createdAt e < createdAt e'"
    and N: "length (keys idx) < 2 ^ 32"
  shows "pruneCache fuel sz now None s = None"
proof -
  define entries where "entries = collectEntries sz (keys idx) s"
  define x where "x = (k, createdAt e, sz e)"
  have x_in: "x \<in> set entries"
    unfolding x_def entries_def using k by (rule collectEntries_present)
  have least: "(\<lambda>(k, created, size). created) x < (\<lambda>(k, created, size). created) y"
    if "y \<in> set entries" "y \<noteq> x" for y
  proof -
    obtain k' c' z' where y: "y = (k', c', z')" by (rule prod_cases3)
    from that(1) have mem: "(k', c', z') \<in> set (collectEntries sz (keys idx) s)"
      by (simp add: entries_def y)
    from collectEntries_member [OF mem] obtain e' where
      e': "cache s k' = Some e'" "c' = createdAt e'" "z' = sz e'" by blast
    have "k' \<noteq> k" using that(2) e' k(2) by (auto simp: y x_def)
    from oldest [OF collectEntries_key [OF mem] this e'(1)] show ?thesis
      by (simp add: x_def y e'(2))
  qed
  have hd: "hd (sort_key (\<lambda>(k, created, size). created) entries) = x"
    using x_in least by (rule hd_sort_key_least)
  have len: "0 < length entries" using x_in by (cases entries) auto
  have "length entries \<le> length (keys idx)"
    unfolding entries_def by (rule length_collectEntries)
  with N have "length entries < 2 ^ 32" by simp
  then have "removeCount (length entries) = (length entries + 4) div 5"
    by (rule removeCount_eq)
  moreover have "0 < (length entries + 4) div 5"
    using len by (cases entries) (simp_all add: div_greater_zero_iff)
  ultimately have pos: "0 < removeCount (length entries)" by simp
  have ne: "sort_key (\<lambda>(k, created, size). created) entries \<noteq> []"
    using len by (metis length_greater_0_conv length_sort)
  have "x \<in> set (toRemove entries)"
    unfolding toRemove_def using hd ne pos
    by (cases "sort_key (\<lambda>(k, created, size). created) entries"; cases "removeCount (length entries)") auto
  then have "k \<in> set (map fst (toRemove entries))"
    by (force simp: x_def)
  then have "k \<in> set (map fst (toRemove (collectEntries sz
              (keys (case None of Some given \<Rightarrow> given | None \<Rightarrow> getCacheIndex now s)) s)))"
    using idx by (simp add: entries_def getCacheIndex_def)
  from pruneCache_expired_victim [OF this k(2) expired] show ?thesis .
qed


theorem pruneCache_expired_never_returns_witness:
  "\<forall>fuel. pruneCache fuel (\<lambda>e. 102400) 1000 None agedStore = None"
proof
  fix fuel
  have idx: "cacheIndex agedStore
      = Some \<lparr>keys = map exampleKey [0 ..< 5], totalSize = int 5 * 102400, lastPruned = 0\<rparr>"
    by (simp add: agedStore_def storeOf_def)
  have k: "exampleKey 0 \<in> set (keys \<lparr>keys = map exampleKey [0 ..< 5], totalSize = int 5 * 102400,
                                       lastPruned = 0\<rparr>)"
    by simp
  have e: "cache agedStore (exampleKey 0) = Some ((exampleEntry 0)\<lparr>expiresAt := 999\<rparr>)"
    by (simp add: agedStore_def)
  have expired: "1000 > expiresAt ((exampleEntry 0)\<lparr>expiresAt := 999\<rparr>)" by simp
  have oldest: "createdAt ((exampleEntry 0)\<lparr>expiresAt := 999\<rparr>) < createdAt e'"
    if "k' \<in> set (keys \<lparr>keys = map exampleKey [0 ..< 5], totalSize = int 5 * 102400,
                          lastPruned = 0\<rparr>)"
      and "k' \<noteq> exampleKey 0" and "cache agedStore k' = Some e'" for k' e'
  proof -
    from that(2,3) have "map_of (map (\<lambda>i. (exampleKey i, exampleEntry i)) [0 ..< 5]) k' = Some e'"
      by (simp add: agedStore_def storeOf_def)
    then obtain i where "k' = exampleKey i" "e' = exampleEntry i"
      by (auto dest!: map_of_SomeD)
    with that(2) have "0 < i" "e' = exampleEntry i" by (auto intro: gr0I)
    then show ?thesis by (simp add: exampleEntry_def)
  qed
  have N: "length (keys \<lparr>keys = map exampleKey [0 ..< 5], totalSize = int 5 * 102400,
                          lastPruned = 0\<rparr>) < 2 ^ 32"
    by simp
  show "pruneCache fuel (\<lambda>e. 102400) 1000 None agedStore = None"
    by (rule pruneCache_expired_never_returns [OF idx k e expired _ N]) (rule oldest)
qed

text \<open>
  Claim C3: after every completed \<open>saveCacheEntry\<close> the key set of the index is the
  set of stored keys and the total grows by the size delta of the write; overwriting a
  key adds the new size less the old one, and a save that evicts leaves the index of
  the entries that stay. Without eviction the key set stays right (lemma
  \<open>saveCacheEntry_without_eviction\<close>), but the code fails the claim at two inputs.
  Saving the same entry of 10 bytes twice into an empty store leaves one stored entry
  and the total 20. Saving a new entry into a store of 81 live entries of 102400 bytes
  each passes the budget and evicts the 17 oldest, and then writes back the index it
  held before the eviction: the index lists all 82 keys, the oldest of which has no
  entry any more, with the total of 82 entries.
\<close>

theorem saveCacheEntry_index_diverges:
  "(\<exists>s1 s2. saveCacheEntry 2 (\<lambda>e. 10) 1000 (exampleEntry 0) emptyStore = Some (Inr s1)
       \<and> saveCacheEntry 2 (\<lambda>e. 10) 1000 (exampleEntry 0) s1 = Some (Inr s2)
       \<and> dom (cache s1) = {exampleKey 0} \<and> map_option totalSize (cacheIndex s1) = Some 10
       \<and> dom (cache s2) = {exampleKey 0} \<and> map_option totalSize (cacheIndex s2) = Some 20)
   \<and> (\<exists>s'. saveCacheEntry 2 (\<lambda>e. 102400) 1000 newEntry (storeOf 81) = Some (Inr s')
       \<and> map_option keys (cacheIndex s') = Some (map exampleKey [0 ..< 81] @ [''new''])
       \<and> map_option totalSize (cacheIndex s') = Some (82 * 102400)
       \<and> cache s' (exampleKey 0) = None)"
proof (rule conjI)
  define s1 where "s1 = saveCacheIndex (updatedIndex (\<lambda>e. 10) 1000 (exampleEntry 0) emptyStore)
      (emptyStore\<lparr>cache := (cache emptyStore)(cacheKey (exampleEntry 0) \<mapsto> exampleEntry 0)\<rparr>)"
  define s2 where "s2 = saveCacheIndex (updatedIndex (\<lambda>e. 10) 1000 (exampleEntry 0) s1)
      (s1\<lparr>cache := (cache s1)(cacheKey (exampleEntry 0) \<mapsto> exampleEntry 0)\<rparr>)"
  have i1: "updatedIndex (\<lambda>e. 10) 1000 (exampleEntry 0) emptyStore
      = \<lparr>keys = [exampleKey 0], totalSize = 10, lastPruned = 1000\<rparr>"
    by (simp add: updatedIndex_def getCacheIndex_def example_simps Let_def)
  have i2: "updatedIndex (\<lambda>e. 10) 1000 (exampleEntry 0) s1
      = \<lparr>keys = [exampleKey 0], totalSize = 20, lastPruned = 1000\<rparr>"
  proof -
    have "cacheIndex s1 = Some \<lparr>keys = [exampleKey 0], totalSize = 10, lastPruned = 1000\<rparr>"
      by (simp add: s1_def i1 saveCacheIndex_def)
    then show ?thesis
      by (simp add: updatedIndex_def getCacheIndex_def example_simps Let_def)
  qed
  have r1: "saveCacheEntry 2 (\<lambda>e. 10) 1000 (exampleEntry 0) emptyStore = Some (Inr s1)"
    unfolding s1_def
    by (rule saveCacheEntry_plain)
       (simp_all add: i1 MAX_ENTRY_SIZE_BYTES_def MAX_STORAGE_BYTES_def)
  have r2: "saveCacheEntry 2 (\<lambda>e. 10) 1000 (exampleEntry 0) s1 = Some (Inr s2)"
    unfolding s2_def
    by (rule saveCacheEntry_plain)
       (simp_all add: i2 MAX_ENTRY_SIZE_BYTES_def MAX_STORAGE_BYTES_def)
  have "dom (cache s1) = {exampleKey 0}" "map_option totalSize (cacheIndex s1) = Some 10"
    by (simp_all add: s1_def i1 saveCacheIndex_def example_simps)
  moreover have "map_option totalSize (cacheIndex s2) = Some 20"
    by (simp add: s2_def i2 saveCacheIndex_def)
  moreover have "cache s2 = cache s1"
    by (simp add: s2_def s1_def saveCacheIndex_def example_simps)
  ultimately show "\<exists>s1 s2. saveCacheEntry 2 (\<lambda>e. 10) 1000 (exampleEntry 0) emptyStore = Some (Inr s1)
       \<and> saveCacheEntry 2 (\<lambda>e. 10) 1000 (exampleEntry 0) s1 = Some (Inr s2)
       \<and> dom (cache s1) = {exampleKey 0} \<and> map_option totalSize (cacheIndex s1) = Some 10
       \<and> dom (cache s2) = {exampleKey 0} \<and> map_option totalSize (cacheIndex s2) = Some 20"
    using r1 r2 by auto
next
  have over: "totalSize (updatedIndex (\<lambda>e. 102400) 1000 newEntry (storeOf 81)) > MAX_STORAGE_BYTES"
    by (simp add: updatedIndex_fullStore MAX_STORAGE_BYTES_def)
  have fits: "(\<lambda>e. 102400) newEntry \<le> MAX_ENTRY_SIZE_BYTES"
    by (simp add: MAX_ENTRY_SIZE_BYTES_def)
  from saveCacheEntry_evicting [OF fits over storeOf_live, of 0]
  obtain s' where s': "saveCacheEntry 2 (\<lambda>e. 102400) 1000 newEntry (storeOf 81) = Some (Inr s')"
    and idx': "cacheIndex s' = Some (updatedIndex (\<lambda>e. 102400) 1000 newEntry (storeOf 81))"
    and cache': "cache s' =
         (\<lambda>x. if x = cacheKey newEntry then Some newEntry
              else if x \<in> set (map fst (toRemove (collectEntries (\<lambda>e. 102400)
                      (keys (updatedIndex (\<lambda>e. 102400) 1000 newEntry (storeOf 81))) (storeOf 81))))
              then None else cache (storeOf 81) x)"
    by (auto simp: numeral_2_eq_2)
  have victim: "exampleKey 0 \<in> set (map exampleKey [0 ..< 17])" by simp
  have notnew: "exampleKey 0 \<noteq> cacheKey newEntry"
    by (simp add: newEntry_def exampleKey_def)
  have "cache s' (exampleKey 0) = None"
    unfolding cache' using notnew victim
    by (simp only: updatedIndex_fullStore CacheIndex.simps fullStore_victims if_True if_False)
  then show "\<exists>s'. saveCacheEntry 2 (\<lambda>e. 102400) 1000 newEntry (storeOf 81) = Some (Inr s')
       \<and> map_option keys (cacheIndex s') = Some (map exampleKey [0 ..< 81] @ [''new''])
       \<and> map_option totalSize (cacheIndex s') = Some (82 * 102400)
       \<and> cache s' (exampleKey 0) = None"
    using s' idx' by (simp add: updatedIndex_fullStore del: upt.simps)
qed

end
